theory Spec2Isabelle
  imports Complex_Main "HOL-Library.Multiset"
begin

section \<open>Conventions of the embedding\<close>

text \<open>
  The gateway is Python. Its values are embedded as follows.
  \<^item> \<open>str\<close> is \<open>string\<close>: one \<open>char\<close> per code point, so the texts covered are those over
    the code points U+0000 .. U+00FF; \<open>len\<close> is \<open>length\<close>.
  \<^item> \<open>int\<close> is \<open>int\<close> (unbounded).
  \<^item> \<open>float\<close> is \<open>real\<close>: arithmetic is exact, the rounding of IEEE doubles is not modelled.
    A value of the program can differ from the model's in the last place, so a comparison
    or a truncation that falls exactly on a boundary in the model (a repetition ratio of
    exactly 0.3, a total of exactly 0.29, a confidence of exactly 0.435) can come out on
    the other side in the program. The concrete values stated below (the scores 17, 1 and
    69) are the same in both.
  \<^item> an exception is the left summand of a result of type \<open>error + 'a\<close>.
  \<^item> the outside world (the model back-end, the clock, the UUID source) is a state
    \<open>'s\<close> that the operations thread through.
\<close>

datatype error =
    LLMError string         \<comment> \<open>any exception raised by the back-end client\<close>
  | ValidationError         \<comment> \<open>pydantic rejects a field value\<close>
  | AssertionError

section \<open>LLM schemas (src/llm/schemas.py)\<close>

datatype Role = System | User | Assistant

record Message =
  role :: Role
  msg_content :: string

record TokenUsage =
  prompt_tokens :: int
  completion_tokens :: int
  total_tokens :: int

record ChatResponse =
  resp_id :: string
  content :: string
  model :: string
  usage :: TokenUsage
  finish_reason :: string
  created_at :: nat
  latency_ms :: real

section \<open>Quality schemas (src/quality/schemas.py)\<close>

datatype QualityIssueType =
  UNCERTAINTY | INCOMPLETE | FAILED_REASONING | TOO_SHORT | REPETITION | REFUSAL

record QualityIssue =
  issue_type :: QualityIssueType
  description :: string
  severity :: real
  evidence :: "string option"

record QualityAssessment =
  quality_score :: int
  issues :: "QualityIssue list"
  should_escalate :: bool
  escalation_reason :: "string option"
  qa_confidence :: real

section \<open>Escalation (src/escalation)\<close>

record EscalationStep =
  model_used :: string
  response_preview :: string
  step_quality_score :: int
  escalated :: bool
  step_latency_ms :: real
  timestamp :: nat

record EscalationChain =
  request_id :: string
  original_prompt_preview :: string
  steps :: "EscalationStep list"
  final_model :: string
  final_response :: string
  total_attempts :: int
  total_latency_ms :: real
  escalation_prevented_loop :: bool

text \<open>
  The handler's collaborators: \<open>settings.complex_model\<close>, \<open>settings.max_escalation_depth\<close>,
  \<open>llm_client.generate\<close> (which may raise), \<open>quality_checker.check\<close>, the clock behind
  \<open>datetime.now\<close> and the source of \<open>uuid.uuid4().hex\<close>.
\<close>

record 's EscalationHandler =
  complex_model :: string
  max_depth :: int
  generate :: "'s \<Rightarrow> Message list \<Rightarrow> string \<Rightarrow> real \<Rightarrow> int option \<Rightarrow> (error + ChatResponse) \<times> 's"
  quality_check :: "string \<Rightarrow> int \<Rightarrow> QualityAssessment"
  now :: "'s \<Rightarrow> nat"
  uuid4_hex :: "'s \<Rightarrow> string \<times> 's"

text \<open>The local variables of \<open>handle_with_escalation\<close> that the loop updates.\<close>

record 's loop_state =
  ls_steps :: "EscalationStep list"
  ls_responses :: "string list"
  ls_models_used :: "string list"
  ls_total_latency_ms :: real
  ls_current_model :: string
  ls_loop_prevented :: bool
  ls_final_response :: "ChatResponse option"
  ls_world :: 's

definition range_py :: "int \<Rightarrow> int list" where
  "range_py n = map int [0..<nat n]"

definition preview :: "nat \<Rightarrow> string \<Rightarrow> string" where
  \<comment> \<open>\<open>s[:n] + "..." if len(s) > n else s\<close>\<close>
  "preview n s = (if length s > n then take n s @ ''...'' else s)"

definition mk_EscalationStep ::
  "string \<Rightarrow> string \<Rightarrow> int \<Rightarrow> bool \<Rightarrow> real \<Rightarrow> nat \<Rightarrow> error + EscalationStep" where
  \<comment> \<open>the constructor with the field constraints of the schema\<close>
  "mk_EscalationStep m p q e l t =
     (if 0 \<le> q \<and> q \<le> 100 \<and> 0 \<le> l
      then Inr \<lparr>model_used = m, response_preview = p, step_quality_score = q,
                escalated = e, step_latency_ms = l, timestamp = t\<rparr>
      else Inl ValidationError)"

definition mk_EscalationChain ::
  "string \<Rightarrow> string \<Rightarrow> EscalationStep list \<Rightarrow> string \<Rightarrow> string \<Rightarrow> int \<Rightarrow> real \<Rightarrow> bool
     \<Rightarrow> error + EscalationChain" where
  "mk_EscalationChain r p ss fm fr ta lat pl =
     (if 1 \<le> ta \<and> 0 \<le> lat
      then Inr \<lparr>request_id = r, original_prompt_preview = p, steps = ss, final_model = fm,
                final_response = fr, total_attempts = ta, total_latency_ms = lat,
                escalation_prevented_loop = pl\<rparr>
      else Inl ValidationError)"

text \<open>
  The body of \<open>for attempt in range(self.max_depth + 1)\<close>, by recursion on the attempts
  still to run. \<open>break\<close> returns the state; an exception of \<open>generate\<close> or of the step's
  constructor leaves the function.
\<close>

fun escalation_loop ::
  "'s EscalationHandler \<Rightarrow> Message list \<Rightarrow> int \<Rightarrow> real \<Rightarrow> int option \<Rightarrow> int list
     \<Rightarrow> 's loop_state \<Rightarrow> error + 's loop_state" where
  "escalation_loop h messages complexity_score temperature max_tokens [] st = Inr st"
| "escalation_loop h messages complexity_score temperature max_tokens (attempt # rest) st =
     (case generate h (ls_world st) messages (ls_current_model st) temperature max_tokens of
        (Inl e, w) \<Rightarrow> Inl e
      | (Inr response, w) \<Rightarrow>
          let quality = quality_check h (content response) complexity_score;
              escalate = (should_escalate quality \<and> attempt < max_depth h
                            \<and> ls_current_model st \<noteq> complex_model h)
          in case mk_EscalationStep (ls_current_model st) (preview 200 (content response))
                    (quality_score quality) escalate (latency_ms response) (now h w) of
               Inl e \<Rightarrow> Inl e
             | Inr step \<Rightarrow>
                 let st1 = st\<lparr>ls_steps := ls_steps st @ [step],
                              ls_responses := ls_responses st @ [content response],
                              ls_models_used := ls_models_used st @ [ls_current_model st],
                              ls_total_latency_ms := ls_total_latency_ms st + latency_ms response,
                              ls_final_response := Some response,
                              ls_world := w\<rparr>
                 in if \<not> should_escalate quality then Inr st1
                    else if attempt \<ge> max_depth h then Inr (st1\<lparr>ls_loop_prevented := True\<rparr>)
                    else if ls_current_model st1 = complex_model h then Inr st1
                    else escalation_loop h messages complexity_score temperature max_tokens rest
                           (st1\<lparr>ls_current_model := complex_model h\<rparr>))"

definition handle_with_escalation ::
  "'s EscalationHandler \<Rightarrow> 's \<Rightarrow> Message list \<Rightarrow> string \<Rightarrow> int \<Rightarrow> real \<Rightarrow> int option
     \<Rightarrow> error + (ChatResponse \<times> EscalationChain)" where
  "handle_with_escalation h w0 messages initial_model complexity_score temperature max_tokens =
     (let (hex, w1) = uuid4_hex h w0;
          rid = ''req-'' @ take 8 hex;
          prompt = (if messages \<noteq> [] then msg_content (last messages) else '''');
          prompt_preview = preview 200 prompt;
          st0 = \<lparr>ls_steps = [], ls_responses = [], ls_models_used = [],
                 ls_total_latency_ms = 0, ls_current_model = initial_model,
                 ls_loop_prevented = False, ls_final_response = None, ls_world = w1\<rparr>
      in case escalation_loop h messages complexity_score temperature max_tokens
                (range_py (max_depth h + 1)) st0 of
           Inl e \<Rightarrow> Inl e
         | Inr st \<Rightarrow>
             (case mk_EscalationChain rid prompt_preview (ls_steps st) (ls_current_model st)
                     (case ls_final_response st of Some r \<Rightarrow> content r | None \<Rightarrow> '''')
                     (int (length (ls_steps st))) (ls_total_latency_ms st)
                     (ls_loop_prevented st) of
                Inl e \<Rightarrow> Inl e
              | Inr chain \<Rightarrow>
                  (case ls_final_response st of
                     None \<Rightarrow> Inl AssertionError
                   | Some r \<Rightarrow> Inr (r, chain))))"

text \<open>
  The state in which the loop can stop: the last recorded step was made with the current
  model and did not ask for another attempt.
\<close>

definition settled :: "'s loop_state \<Rightarrow> bool" where
  "settled st \<longleftrightarrow> ls_steps st \<noteq> [] \<and> model_used (last (ls_steps st)) = ls_current_model st
      \<and> \<not> escalated (last (ls_steps st))"

subsection \<open>A test double for the handler\<close>

text \<open>
  A back-end that answers poorly on every model but \<open>C\<close>, and a checker that accepts only the
  good answer; the world state counts the calls made.
\<close>

definition fixture_response :: "string \<Rightarrow> string \<Rightarrow> ChatResponse" where
  "fixture_response m txt =
     \<lparr>resp_id = ''resp'', content = txt, model = m,
      usage = \<lparr>prompt_tokens = 10, completion_tokens = 5, total_tokens = 15\<rparr>,
      finish_reason = ''stop'', created_at = 0, latency_ms = 100\<rparr>"

definition fixture_assessment :: "bool \<Rightarrow> QualityAssessment" where
  "fixture_assessment good =
     \<lparr>quality_score = (if good then 100 else 40), issues = [],
      should_escalate = (\<not> good), escalation_reason = None, qa_confidence = 1\<rparr>"

definition fixture_handler :: "nat EscalationHandler" where
  "fixture_handler =
     \<lparr>complex_model = ''C'', max_depth = 2,
      generate = (\<lambda>w ms m t mt.
        (Inr (fixture_response m (if m = ''C'' then ''a good answer'' else ''uhh, maybe'')), Suc w)),
      quality_check = (\<lambda>txt c. fixture_assessment (txt = ''a good answer'')),
      now = (\<lambda>w. w),
      uuid4_hex = (\<lambda>w. (''0123456789abcdef0123456789abcdef'', Suc w))\<rparr>"

definition fixture_messages :: "Message list" where
  "fixture_messages = [\<lparr>role = User, msg_content = ''Why is the sky blue?''\<rparr>]"

definition fixture_chain :: EscalationChain where
  "fixture_chain =
     \<lparr>request_id = ''req-01234567'', original_prompt_preview = ''Why is the sky blue?'',
      steps = [\<lparr>model_used = ''F'', response_preview = ''uhh, maybe'', step_quality_score = 40,
                 escalated = True, step_latency_ms = 100, timestamp = 2\<rparr>,
               \<lparr>model_used = ''C'', response_preview = ''a good answer'', step_quality_score = 100,
                 escalated = False, step_latency_ms = 100, timestamp = 3\<rparr>],
      final_model = ''C'', final_response = ''a good answer'', total_attempts = 2,
      total_latency_ms = 200, escalation_prevented_loop = False\<rparr>"

section \<open>Text primitives of Python\<close>

definition ord :: "char \<Rightarrow> nat" where
  "ord c = of_char c"

definition lower_char :: "char \<Rightarrow> char" where
  \<comment> \<open>\<open>str.lower\<close> on one code point below U+0100: A-Z, and the capitals of Latin-1
      (U+00C0 .. U+00DE without the multiplication sign U+00D7)\<close>
  "lower_char c =
     (let n = ord c
      in if (65 \<le> n \<and> n \<le> 90) \<or> (192 \<le> n \<and> n \<le> 222 \<and> n \<noteq> 215)
         then char_of (n + 32) else c)"

definition lower :: "string \<Rightarrow> string" where
  "lower s = map lower_char s"

definition isspace :: "char \<Rightarrow> bool" where
  \<comment> \<open>\<open>str.isspace\<close> below U+0100: TAB LF VT FF CR, FS GS RS US, SPACE, NEL, NBSP\<close>
  "isspace c =
     (let n = ord c
      in (9 \<le> n \<and> n \<le> 13) \<or> (28 \<le> n \<and> n \<le> 32) \<or> n = 133 \<or> n = 160)"

definition strip :: "string \<Rightarrow> string" where
  "strip s = rev (dropWhile isspace (rev (dropWhile isspace s)))"

fun startswith :: "string \<Rightarrow> string \<Rightarrow> bool" where
  "startswith s [] = True"
| "startswith [] (p # ps) = False"
| "startswith (c # cs) (p # ps) = (c = p \<and> startswith cs ps)"

fun contains :: "string \<Rightarrow> string \<Rightarrow> bool" where
  \<comment> \<open>\<open>sub in s\<close>\<close>
  "contains sub [] = (sub = [])"
| "contains sub (c # cs) = (startswith (c # cs) sub \<or> contains sub cs)"

fun str_nat :: "nat \<Rightarrow> string" where
  "str_nat n = (if n < 10 then [''0123456789'' ! n]
                else str_nat (n div 10) @ [''0123456789'' ! (n mod 10)])"

definition str_int :: "int \<Rightarrow> string" where
  \<comment> \<open>\<open>str(i)\<close>, also what an f-string prints for an int\<close>
  "str_int i = (if i < 0 then CHR ''-'' # str_nat (nat (- i)) else str_nat (nat i))"

definition int_of_float :: "real \<Rightarrow> int" where
  \<comment> \<open>\<open>int(x)\<close> of a float: truncation towards zero\<close>
  "int_of_float x = (if 0 \<le> x then \<lfloor>x\<rfloor> else \<lceil>x\<rceil>)"

section \<open>The regular expressions of Python's \<open>re\<close> that the detectors use\<close>

text \<open>
  The detectors search their texts with \<open>re.finditer\<close> and \<open>re.search\<close>. The patterns are
  embedded as syntax trees and matched the way the backtracking matcher of \<open>re\<close> matches
  them: the alternatives of a pattern at a position are listed in the order in which the
  matcher tries them, and the first one is the match.
\<close>

definition upper_char :: "char \<Rightarrow> char" where
  \<comment> \<open>the upper-case partner below U+0100 (\<open>y\<close> with diaeresis, the micro sign and the
      sharp s have theirs above U+00FF)\<close>
  "upper_char c =
     (let n = ord c
      in if (97 \<le> n \<and> n \<le> 122) \<or> (224 \<le> n \<and> n \<le> 254 \<and> n \<noteq> 247)
         then char_of (n - 32) else c)"

definition is_digit :: "char \<Rightarrow> bool" where
  \<comment> \<open>\<open>\d\<close>\<close>
  "is_digit c = (let n = ord c in 48 \<le> n \<and> n \<le> 57)"

definition is_word :: "char \<Rightarrow> bool" where
  \<comment> \<open>\<open>\w\<close>: alphanumeric in the sense of \<open>str.isalnum\<close>, or the underscore\<close>
  "is_word c =
     (let n = ord c
      in (48 \<le> n \<and> n \<le> 57) \<or> (65 \<le> n \<and> n \<le> 90) \<or> n = 95 \<or> (97 \<le> n \<and> n \<le> 122)
         \<or> n = 170 \<or> n = 178 \<or> n = 179 \<or> n = 181 \<or> n = 185 \<or> n = 186
         \<or> (188 \<le> n \<and> n \<le> 190) \<or> (192 \<le> n \<and> n \<le> 214) \<or> (216 \<le> n \<and> n \<le> 246)
         \<or> (248 \<le> n \<and> n \<le> 255))"

datatype cls_item = CChar char | CRange char char | CDigit | CSpace | CNotSpace | CWord

datatype regex =
    Eps
  | Chr char                          \<comment> \<open>a literal character\<close>
  | Dot                               \<comment> \<open>\<open>.\<close>: any character but the newline\<close>
  | Cls bool "cls_item list"          \<comment> \<open>\<open>[...]\<close>; \<open>True\<close> for a negated class \<open>[^...]\<close>\<close>
  | Seq regex regex
  | Alt regex regex
  | Rep regex nat "nat option" bool   \<comment> \<open>at least, at most, greedy\<close>
  | Bol                               \<comment> \<open>\<open>^\<close>\<close>
  | Eol                               \<comment> \<open>\<open>$\<close>\<close>
  | WordB                             \<comment> \<open>\<open>\b\<close>\<close>
  | NotAhead regex                    \<comment> \<open>\<open>(?!...)\<close>\<close>

record flags =
  ignorecase :: bool
  multiline :: bool

text \<open>A position in the text: its index, the character before it and the text from it on.\<close>

type_synonym cursor = "nat \<times> char option \<times> string"

fun in_item :: "cls_item \<Rightarrow> char \<Rightarrow> bool" where
  "in_item (CChar x) c = (c = x)"
| "in_item (CRange lo hi) c = (ord lo \<le> ord c \<and> ord c \<le> ord hi)"
| "in_item CDigit c = is_digit c"
| "in_item CSpace c = isspace c"
| "in_item CNotSpace c = (\<not> isspace c)"
| "in_item CWord c = is_word c"

definition in_cls :: "flags \<Rightarrow> cls_item list \<Rightarrow> char \<Rightarrow> bool" where
  "in_cls fl items c =
     ((\<exists>i \<in> set items. in_item i c)
      \<or> (ignorecase fl \<and> ((\<exists>i \<in> set items. in_item i (lower_char c))
                            \<or> (\<exists>i \<in> set items. in_item i (upper_char c)))))"

definition chr_eq :: "flags \<Rightarrow> char \<Rightarrow> char \<Rightarrow> bool" where
  "chr_eq fl x c = (c = x \<or> (ignorecase fl \<and> lower_char c = lower_char x))"

definition step1 :: "(char \<Rightarrow> bool) \<Rightarrow> cursor \<Rightarrow> cursor list" where
  \<comment> \<open>consume one character that satisfies the test\<close>
  "step1 ok cur =
     (case cur of (i, prev, rest) \<Rightarrow>
        (case rest of [] \<Rightarrow> [] | c # cs \<Rightarrow> if ok c then [(Suc i, Some c, cs)] else []))"

definition at_bol :: "flags \<Rightarrow> cursor \<Rightarrow> bool" where
  "at_bol fl cur =
     (case cur of (i, prev, rest) \<Rightarrow>
        (case prev of None \<Rightarrow> True | Some p \<Rightarrow> multiline fl \<and> p = CHR 0x0A))"

definition at_eol :: "flags \<Rightarrow> cursor \<Rightarrow> bool" where
  "at_eol fl cur =
     (case cur of (i, prev, rest) \<Rightarrow>
        (rest = [] \<or> rest = [CHR 0x0A] \<or> (multiline fl \<and> hd rest = CHR 0x0A)))"

definition at_wordb :: "cursor \<Rightarrow> bool" where
  "at_wordb cur =
     (case cur of (i, prev, rest) \<Rightarrow>
        ((case prev of None \<Rightarrow> False | Some p \<Rightarrow> is_word p)
           \<noteq> (case rest of [] \<Rightarrow> False | c # cs \<Rightarrow> is_word c)))"

text \<open>
  Repetition. \<open>f\<close> lists the ends of one round. A round that consumes nothing ends the
  repetition, so every further round starts on a shorter rest and the \<open>length rest + 1\<close>
  rounds that \<open>ends\<close> allows are never used up.
\<close>

fun rep_ends ::
  "(cursor \<Rightarrow> cursor list) \<Rightarrow> nat \<Rightarrow> nat \<Rightarrow> nat option \<Rightarrow> bool \<Rightarrow> cursor \<Rightarrow> cursor list" where
  "rep_ends f 0 mn mx greedy cur = (if mn = 0 then [cur] else [])"
| "rep_ends f (Suc n) mn mx greedy cur =
     (let more = (if mx = Some 0 then []
                  else concat (map (rep_ends f n (mn - 1) (map_option (\<lambda>m. m - 1) mx) greedy)
                                 (filter (\<lambda>c. length (snd (snd c)) < length (snd (snd cur)))
                                    (f cur))));
          stop = (if mn = 0 then [cur] else [])
      in if greedy then more @ stop else stop @ more)"

fun ends :: "flags \<Rightarrow> regex \<Rightarrow> cursor \<Rightarrow> cursor list" where
  "ends fl Eps cur = [cur]"
| "ends fl (Chr x) cur = step1 (chr_eq fl x) cur"
| "ends fl Dot cur = step1 (\<lambda>c. c \<noteq> CHR 0x0A) cur"
| "ends fl (Cls neg items) cur = step1 (\<lambda>c. in_cls fl items c \<noteq> neg) cur"
| "ends fl (Seq r1 r2) cur = concat (map (ends fl r2) (ends fl r1 cur))"
| "ends fl (Alt r1 r2) cur = ends fl r1 cur @ ends fl r2 cur"
| "ends fl (Rep r mn mx greedy) cur =
     rep_ends (ends fl r) (Suc (length (snd (snd cur)))) mn mx greedy cur"
| "ends fl Bol cur = (if at_bol fl cur then [cur] else [])"
| "ends fl Eol cur = (if at_eol fl cur then [cur] else [])"
| "ends fl WordB cur = (if at_wordb cur then [cur] else [])"
| "ends fl (NotAhead r) cur = (if ends fl r cur = [] then [cur] else [])"

text \<open>A match: where it starts and the text it covers (\<open>match.start()\<close>, \<open>match.group()\<close>).\<close>

type_synonym match = "nat \<times> string"

fun search_from :: "flags \<Rightarrow> regex \<Rightarrow> nat \<Rightarrow> char option \<Rightarrow> string \<Rightarrow> (match \<times> cursor) option" where
  \<comment> \<open>the leftmost match at or after the cursor, and the cursor behind it\<close>
  "search_from fl r i prev [] =
     (case ends fl r (i, prev, []) of [] \<Rightarrow> None | e # es \<Rightarrow> Some ((i, []), e))"
| "search_from fl r i prev (c # cs) =
     (case ends fl r (i, prev, c # cs) of
        [] \<Rightarrow> search_from fl r (Suc i) (Some c) cs
      | e # es \<Rightarrow> Some ((i, take (fst e - i) (c # cs)), e))"

definition re_search :: "flags \<Rightarrow> regex \<Rightarrow> string \<Rightarrow> match option" where
  "re_search fl r s = map_option fst (search_from fl r 0 None s)"

fun finditer_from :: "flags \<Rightarrow> regex \<Rightarrow> nat \<Rightarrow> cursor \<Rightarrow> match list" where
  \<comment> \<open>the successive non-overlapping matches; the first argument of type \<open>nat\<close> bounds their
      number and is never reached, since every match moves the cursor on\<close>
  "finditer_from fl r 0 cur = []"
| "finditer_from fl r (Suc n) cur =
     (case cur of (i, prev, rest) \<Rightarrow>
        (case search_from fl r i prev rest of
           None \<Rightarrow> []
         | Some (m, (j, prev', rest')) \<Rightarrow>
             m # (if length rest' < length rest then finditer_from fl r n (j, prev', rest')
                  else (case rest' of [] \<Rightarrow> []
                        | c # cs \<Rightarrow> finditer_from fl r n (Suc j, Some c, cs)))))"

definition finditer :: "flags \<Rightarrow> regex \<Rightarrow> string \<Rightarrow> match list" where
  "finditer fl r s = finditer_from fl r (Suc (length s)) (0, None, s)"

text \<open>Shorthands for writing the patterns.\<close>

definition lit :: "string \<Rightarrow> regex" where
  "lit s = foldr (\<lambda>c r. Seq (Chr c) r) s Eps"

definition cat :: "regex list \<Rightarrow> regex" where
  "cat rs = foldr Seq rs Eps"

definition alts :: "regex list \<Rightarrow> regex" where
  "alts rs = foldr Alt (butlast rs) (last rs)"

definition opt :: "regex \<Rightarrow> regex" where
  "opt r = Rep r 0 (Some 1) True"

definition star :: "regex \<Rightarrow> regex" where
  "star r = Rep r 0 None True"

definition plus :: "regex \<Rightarrow> regex" where
  "plus r = Rep r 1 None True"

definition no_flags :: flags where
  "no_flags = \<lparr>ignorecase = False, multiline = False\<rparr>"

definition IGNORECASE :: flags where
  "IGNORECASE = \<lparr>ignorecase = True, multiline = False\<rparr>"

definition IGNORECASE_MULTILINE :: flags where
  "IGNORECASE_MULTILINE = \<lparr>ignorecase = True, multiline = True\<rparr>"

section \<open>Quality detectors (src/quality/detectors.py)\<close>

text \<open>
  The pattern tables, each entry below the source text of its pattern. A code point above
  U+00FF in a pattern is written \<open>Beyond\<close> (or left out of a character class): no text of
  the embedding contains it.
\<close>

definition Beyond :: regex where
  "Beyond = Cls False []"

definition UNCERTAINTY_PATTERNS :: "regex list" where
  \<open>UNCERTAINTY_PATTERNS =
     [\<comment> \<open>\<^verbatim>\<open>i'?m not (?:entirely |completely |fully )?sure\<close>\<close>
      cat [Chr (CHR ''i''), opt (Chr (CHR 0x27)), lit ''m not '', opt (alts [lit ''entirely '', lit ''completely '', lit ''fully '']), lit ''sure''],
      \<comment> \<open>\<^verbatim>\<open>i'?m not certain\<close>\<close>
      cat [Chr (CHR ''i''), opt (Chr (CHR 0x27)), lit ''m not certain''],
      \<comment> \<open>\<^verbatim>\<open>i'?m uncertain\<close>\<close>
      cat [Chr (CHR ''i''), opt (Chr (CHR 0x27)), lit ''m uncertain''],
      \<comment> \<open>\<^verbatim>\<open>might be\<close>\<close>
      lit ''might be'',
      \<comment> \<open>\<^verbatim>\<open>may be\<close>\<close>
      lit ''may be'',
      \<comment> \<open>\<^verbatim>\<open>possibly\<close>\<close>
      lit ''possibly'',
      \<comment> \<open>\<^verbatim>\<open>perhaps\<close>\<close>
      lit ''perhaps'',
      \<comment> \<open>\<^verbatim>\<open>i think(?! that)\<close>\<close>
      cat [lit ''i think'', NotAhead (lit '' that'')],
      \<comment> \<open>\<^verbatim>\<open>i believe(?! that)\<close>\<close>
      cat [lit ''i believe'', NotAhead (lit '' that'')],
      \<comment> \<open>\<^verbatim>\<open>it seems like\<close>\<close>
      lit ''it seems like'',
      \<comment> \<open>\<^verbatim>\<open>it appears (?:to be |that )\<close>\<close>
      cat [lit ''it appears '', alts [lit ''to be '', lit ''that '']],
      \<comment> \<open>\<^verbatim>\<open>could be\<close>\<close>
      lit ''could be'',
      \<comment> \<open>\<^verbatim>\<open>probably\<close>\<close>
      lit ''probably'',
      \<comment> \<open>\<^verbatim>\<open>not 100% sure\<close>\<close>
      lit ''not 100% sure'',
      \<comment> \<open>\<^verbatim>\<open>hard to say\<close>\<close>
      lit ''hard to say'',
      \<comment> \<open>\<^verbatim>\<open>difficult to determine\<close>\<close>
      lit ''difficult to determine'',
      \<comment> \<open>\<^verbatim>\<open>i don'?t (?:really )?know\<close>\<close>
      cat [lit ''i don'', opt (Chr (CHR 0x27)), lit ''t '', opt (lit ''really ''), lit ''know''],
      \<comment> \<open>\<^verbatim>\<open>(?:this|that) is (?:just )?(?:a |my )?guess\<close>\<close>
      cat [alts [lit ''this'', lit ''that''], lit '' is '', opt (lit ''just ''), opt (alts [lit ''a '', lit ''my '']), lit ''guess''],
      \<comment> \<open>\<^verbatim>\<open>if i had to guess\<close>\<close>
      lit ''if i had to guess'',
      \<comment> \<open>\<^verbatim>\<open>take this with a grain of salt\<close>\<close>
      lit ''take this with a grain of salt'']\<close>

definition INCOMPLETE_PATTERNS :: "regex list" where
  \<open>INCOMPLETE_PATTERNS =
     [\<comment> \<open>\<^verbatim>\<open>\.\.\.\s*$\<close>\<close>
      cat [lit ''...'', star (Cls False [CSpace]), Eol],
      \<comment> \<open>\<^verbatim>\<open>U+00E2U+20ACU+00A6\s*$\<close>\<close>
      cat [Chr (CHR 0xE2), Beyond, Chr (CHR 0xA6), star (Cls False [CSpace]), Eol],
      \<comment> \<open>\<^verbatim>\<open>(?:etc|and so on|and more|and others)\s*\.?\s*$\<close>\<close>
      cat [alts [lit ''etc'', lit ''and so on'', lit ''and more'', lit ''and others''], star (Cls False [CSpace]), opt (Chr (CHR ''.'')), star (Cls False [CSpace]), Eol],
      \<comment> \<open>\<^verbatim>\<open>:\s*$\<close>\<close>
      cat [Chr (CHR '':''), star (Cls False [CSpace]), Eol],
      \<comment> \<open>\<^verbatim>\<open>\d+\.\s*$\<close>\<close>
      cat [plus (Cls False [CDigit]), Chr (CHR ''.''), star (Cls False [CSpace]), Eol],
      \<comment> \<open>\<^verbatim>\<open>(?:First|1\.)[^.]*$\<close>\<close>
      cat [alts [lit ''First'', lit ''1.''], star (Cls True [CChar (CHR ''.'')]), Eol],
      \<comment> \<open>\<^verbatim>\<open>to be continued\<close>\<close>
      lit ''to be continued'',
      \<comment> \<open>\<^verbatim>\<open>i'll continue\<close>\<close>
      cat [Chr (CHR ''i''), Chr (CHR 0x27), lit ''ll continue''],
      \<comment> \<open>\<^verbatim>\<open>let me know if you.{0,30}$\<close>\<close>
      cat [lit ''let me know if you'', Rep (Dot) 0 (Some 30) True, Eol]]\<close>

definition FAILED_REASONING_PATTERNS :: "regex list" where
  \<open>FAILED_REASONING_PATTERNS =
     [\<comment> \<open>\<^verbatim>\<open>i cannot (?:help|assist|provide|answer)\<close>\<close>
      cat [lit ''i cannot '', alts [lit ''help'', lit ''assist'', lit ''provide'', lit ''answer'']],
      \<comment> \<open>\<^verbatim>\<open>i am unable to\<close>\<close>
      lit ''i am unable to'',
      \<comment> \<open>\<^verbatim>\<open>i'?m unable to\<close>\<close>
      cat [Chr (CHR ''i''), opt (Chr (CHR 0x27)), lit ''m unable to''],
      \<comment> \<open>\<^verbatim>\<open>i don'?t have (?:the |enough )?(?:ability|capability|information|access)\<close>\<close>
      cat [lit ''i don'', opt (Chr (CHR 0x27)), lit ''t have '', opt (alts [lit ''the '', lit ''enough '']), alts [lit ''ability'', lit ''capability'', lit ''information'', lit ''access'']],
      \<comment> \<open>\<^verbatim>\<open>(?:this|that) is (?:beyond|outside) (?:my|the) (?:capabilities|scope|knowledge)\<close>\<close>
      cat [alts [lit ''this'', lit ''that''], lit '' is '', alts [lit ''beyond'', lit ''outside''], Chr (CHR '' ''), alts [lit ''my'', lit ''the''], Chr (CHR '' ''), alts [lit ''capabilities'', lit ''scope'', lit ''knowledge'']],
      \<comment> \<open>\<^verbatim>\<open>i apologize.{0,50}cannot\<close>\<close>
      cat [lit ''i apologize'', Rep (Dot) 0 (Some 50) True, lit ''cannot''],
      \<comment> \<open>\<^verbatim>\<open>i'?m sorry.{0,30}(?:cannot|can't|unable)\<close>\<close>
      cat [Chr (CHR ''i''), opt (Chr (CHR 0x27)), lit ''m sorry'', Rep (Dot) 0 (Some 30) True, alts [lit ''cannot'', cat [lit ''can'', Chr (CHR 0x27), Chr (CHR ''t'')], lit ''unable'']],
      \<comment> \<open>\<^verbatim>\<open>unfortunately.{0,30}(?:cannot|can't|unable)\<close>\<close>
      cat [lit ''unfortunately'', Rep (Dot) 0 (Some 30) True, alts [lit ''cannot'', cat [lit ''can'', Chr (CHR 0x27), Chr (CHR ''t'')], lit ''unable'']],
      \<comment> \<open>\<^verbatim>\<open>i'?m not able to\<close>\<close>
      cat [Chr (CHR ''i''), opt (Chr (CHR 0x27)), lit ''m not able to'']]\<close>

definition REFUSAL_PATTERNS :: "regex list" where
  \<open>REFUSAL_PATTERNS =
     [\<comment> \<open>\<^verbatim>\<open>i (?:cannot|can't|won't|will not) (?:help|assist) with (?:that|this)\<close>\<close>
      cat [lit ''i '', alts [lit ''cannot'', cat [lit ''can'', Chr (CHR 0x27), Chr (CHR ''t'')], cat [lit ''won'', Chr (CHR 0x27), Chr (CHR ''t'')], lit ''will not''], Chr (CHR '' ''), alts [lit ''help'', lit ''assist''], lit '' with '', alts [lit ''that'', lit ''this'']],
      \<comment> \<open>\<^verbatim>\<open>(?:this|that) (?:request|question) (?:is|seems) (?:inappropriate|harmful)\<close>\<close>
      cat [alts [lit ''this'', lit ''that''], Chr (CHR '' ''), alts [lit ''request'', lit ''question''], Chr (CHR '' ''), alts [lit ''is'', lit ''seems''], Chr (CHR '' ''), alts [lit ''inappropriate'', lit ''harmful'']],
      \<comment> \<open>\<^verbatim>\<open>i'?m not (?:going to|able to) (?:help|assist) with\<close>\<close>
      cat [Chr (CHR ''i''), opt (Chr (CHR 0x27)), lit ''m not '', alts [lit ''going to'', lit ''able to''], Chr (CHR '' ''), alts [lit ''help'', lit ''assist''], lit '' with''],
      \<comment> \<open>\<^verbatim>\<open>(?:that's|this is) not something i can\<close>\<close>
      cat [alts [cat [lit ''that'', Chr (CHR 0x27), Chr (CHR ''s'')], lit ''this is''], lit '' not something i can''],
      \<comment> \<open>\<^verbatim>\<open>i have to decline\<close>\<close>
      lit ''i have to decline'',
      \<comment> \<open>\<^verbatim>\<open>i must refuse\<close>\<close>
      lit ''i must refuse'']\<close>

text \<open>Helpers for the loops and string operations of the detectors.\<close>

fun first_search :: "flags \<Rightarrow> regex list \<Rightarrow> string \<Rightarrow> match option" where
  \<comment> \<open>\<open>for pattern in patterns: m = re.search(pattern, s); if m: ...; break\<close>\<close>
  "first_search fl [] s = None"
| "first_search fl (p # ps) s =
     (case re_search fl p s of Some m \<Rightarrow> Some m | None \<Rightarrow> first_search fl ps s)"

fun pieces :: "nat \<Rightarrow> string \<Rightarrow> match list \<Rightarrow> string list" where
  \<comment> \<open>the texts between successive matches; the second argument is the text from the
      index of the first argument on\<close>
  "pieces i rest [] = [rest]"
| "pieces i rest ((start, g) # ms) =
     take (start - i) rest # pieces (start + length g) (drop (start - i + length g) rest) ms"

definition re_split :: "flags \<Rightarrow> regex \<Rightarrow> string \<Rightarrow> string list" where
  "re_split fl r s = pieces 0 s (finditer fl r s)"

fun split_ws :: "string \<Rightarrow> string \<Rightarrow> string list" where
  \<comment> \<open>\<open>str.split()\<close>: the maximal runs of non-space characters; the second argument is the
      run being read, reversed\<close>
  "split_ws [] acc = (if acc = [] then [] else [rev acc])"
| "split_ws (c # cs) acc =
     (if isspace c then (if acc = [] then split_ws cs [] else rev acc # split_ws cs [])
      else split_ws cs (c # acc))"

fun join :: "string \<Rightarrow> string list \<Rightarrow> string" where
  "join sep [] = []"
| "join sep [x] = x"
| "join sep (x # y # ys) = x @ sep @ join sep (y # ys)"

definition round_half_even :: "real \<Rightarrow> int" where
  \<comment> \<open>\<open>round\<close> to an integer, ties to the even neighbour\<close>
  "round_half_even x =
     (let f = \<lfloor>x\<rfloor>; d = x - of_int f
      in if d < 1/2 then f else if d > 1/2 then f + 1 else if even f then f else f + 1)"

definition round2 :: "real \<Rightarrow> real" where
  \<comment> \<open>\<open>round(x, 2)\<close>\<close>
  "round2 x = of_int (round_half_even (x * 100)) / 100"

definition format_percent0 :: "real \<Rightarrow> string" where
  \<comment> \<open>the format \<open>{x:.0%}\<close>\<close>
  "format_percent0 x = str_int (round_half_even (x * 100)) @ ''%''"

subsection \<open>The six detectors\<close>

definition detect_uncertainty :: "string \<Rightarrow> QualityIssue list" where
  "detect_uncertainty text =
     (let text_lower = lower text;
          matches_found =
            concat (map (\<lambda>pattern. map snd (finditer no_flags pattern text_lower))
                      UNCERTAINTY_PATTERNS)
      in if matches_found \<noteq> [] then
           [\<lparr>issue_type = UNCERTAINTY,
             description = ''Found '' @ str_int (int (length matches_found))
                             @ '' uncertainty phrase(s)'',
             severity = min 0.8 (0.2 * real (length matches_found)),
             evidence = Some (take 50 (hd matches_found))\<rparr>]
         else [])"

definition detect_incomplete :: "string \<Rightarrow> QualityIssue list" where
  "detect_incomplete text =
     (case first_search IGNORECASE INCOMPLETE_PATTERNS text of
        None \<Rightarrow> []
      | Some m \<Rightarrow>
          [\<lparr>issue_type = INCOMPLETE,
            description = ''Response appears to be incomplete'',
            severity = 0.7,
            evidence = Some (if length text > 100 then strip (drop (length text - 100) text)
                             else strip text)\<rparr>])"

definition detect_failed_reasoning :: "string \<Rightarrow> QualityIssue list" where
  "detect_failed_reasoning text =
     (case first_search no_flags FAILED_REASONING_PATTERNS (lower text) of
        None \<Rightarrow> []
      | Some m \<Rightarrow>
          [\<lparr>issue_type = FAILED_REASONING,
            description = ''Response indicates inability to complete task'',
            severity = 0.9,
            evidence = Some (take 50 (snd m))\<rparr>])"

definition detect_refusal :: "string \<Rightarrow> QualityIssue list" where
  "detect_refusal text =
     (case first_search no_flags REFUSAL_PATTERNS (lower text) of
        None \<Rightarrow> []
      | Some m \<Rightarrow>
          [\<lparr>issue_type = REFUSAL,
            description = ''Model refused to answer the request'',
            severity = 1.0,
            evidence = Some (take 50 (snd m))\<rparr>])"

definition detect_too_short :: "string \<Rightarrow> int \<Rightarrow> int \<Rightarrow> QualityIssue list" where
  "detect_too_short text min_length prompt_complexity =
     (let text_stripped = strip text;
          expected_min = min_length + (prompt_complexity * 2)
      in if int (length text_stripped) < expected_min then
           (let sev = max 0.3 (1.0 - (real (length text_stripped) / real_of_int expected_min))
            in [\<lparr>issue_type = TOO_SHORT,
                  description = ''Response is only '' @ str_int (int (length text_stripped))
                                  @ '' characters (expected >'' @ str_int expected_min @ '')'',
                  severity = min 0.7 sev,
                  evidence = Some (if text_stripped \<noteq> [] then take 100 text_stripped
                                   else ''(empty)'')\<rparr>])
         else [])"

definition repeated_phrase :: "string list \<Rightarrow> string option" where
  \<comment> \<open>the first three-word phrase, among those starting at the indices of
      \<open>range(len(words) - 6)\<close>, that occurs again in the words after it\<close>
  "repeated_phrase words =
     map_option (\<lambda>i. join '' '' (take 3 (drop i words)))
       (List.find (\<lambda>i. contains (join '' '' (take 3 (drop i words)))
                            (join '' '' (drop (i + 3) words)))
          [0..<length words - 6])"

definition detect_repetition :: "string \<Rightarrow> QualityIssue list" where
  "detect_repetition text =
     (let sentences =
            map (\<lambda>s. lower (strip s))
              (filter (\<lambda>s. strip s \<noteq> [] \<and> length (strip s) > 10)
                 (re_split no_flags
                    (plus (Cls False [CChar (CHR ''.''), CChar (CHR ''!''), CChar (CHR ''?'')]))
                    text))
      in if length sentences < 3 then []
         else
           (let repetition_ratio =
                  1 - (real (length (remdups sentences)) / real (length sentences));
                issues1 =
                  (if repetition_ratio > 0.3 then
                     [\<lparr>issue_type = REPETITION,
                       description = ''High repetition ratio: ''
                                       @ format_percent0 repetition_ratio,
                       severity = min 0.8 repetition_ratio,
                       evidence = None\<rparr>]
                   else []);
                words = split_ws (lower text) []
            in if length words > 10 then
                 (case repeated_phrase words of
                    None \<Rightarrow> issues1
                  | Some phrase \<Rightarrow>
                      if \<not> (\<exists>i \<in> set issues1. issue_type i = REPETITION) then
                        issues1 @ [\<lparr>issue_type = REPETITION,
                                    description = ''Contains repeated phrases'',
                                    severity = 0.5,
                                    evidence = Some phrase\<rparr>]
                      else issues1)
               else issues1))"

section \<open>Quality checker (src/quality/service.py)\<close>

record QualityChecker =
  min_response_length :: int
  quality_threshold :: int

definition QualityChecker_init :: "int \<Rightarrow> int \<Rightarrow> int option \<Rightarrow> QualityChecker" where
  \<comment> \<open>\<open>__init__\<close>; the first argument is \<open>settings.quality_threshold\<close>. Python's \<open>or\<close>
      takes the setting also when the threshold passed is 0.\<close>
  "QualityChecker_init settings_quality_threshold min_len threshold =
     \<lparr>min_response_length = min_len,
      quality_threshold =
        (case threshold of
           None \<Rightarrow> settings_quality_threshold
         | Some t \<Rightarrow> if t \<noteq> 0 then t else settings_quality_threshold)\<rparr>"

definition default_checker :: QualityChecker where
  \<comment> \<open>\<open>QualityChecker(settings)\<close> on the default settings\<close>
  "default_checker = QualityChecker_init 60 50 None"

definition calculate_score :: "QualityIssue list \<Rightarrow> int" where
  \<comment> \<open>\<open>QualityChecker._calculate_score\<close>\<close>
  "calculate_score iss =
     (if iss = [] then 100
      else (let total_penalty = sum_list (map (\<lambda>issue. severity issue * 25) iss)
            in max 0 (int_of_float (100 - total_penalty))))"

definition calculate_confidence :: "QualityIssue list \<Rightarrow> string \<Rightarrow> real" where
  \<comment> \<open>\<open>QualityChecker._calculate_confidence\<close>\<close>
  "calculate_confidence iss response_text =
     (let length_factor = min 1.0 (real (length response_text) / 500);
          issue_clarity = (if iss \<noteq> [] then sum_list (map severity iss) / real (length iss)
                           else 0.7);
          c = length_factor * 0.4 + issue_clarity * 0.6
      in round2 (min 1.0 c))"

fun max_by_severity :: "QualityIssue \<Rightarrow> QualityIssue list \<Rightarrow> QualityIssue" where
  \<comment> \<open>\<open>max(issues, key=lambda i: i.severity)\<close>: the first issue of greatest severity\<close>
  "max_by_severity best [] = best"
| "max_by_severity best (i # rest) =
     max_by_severity (if severity i > severity best then i else best) rest"

definition check :: "QualityChecker \<Rightarrow> string \<Rightarrow> int \<Rightarrow> QualityAssessment" where
  "check self response_text prompt_complexity =
     (if response_text = [] \<or> strip response_text = [] then
        \<lparr>quality_score = 0,
         issues = [\<lparr>issue_type = TOO_SHORT, description = ''Response is empty'',
                    severity = 1.0, evidence = Some ''(empty response)''\<rparr>],
         should_escalate = True,
         escalation_reason = Some ''Empty response received'',
         qa_confidence = 1.0\<rparr>
      else
        (let all_issues =
               detect_uncertainty response_text
               @ detect_incomplete response_text
               @ detect_failed_reasoning response_text
               @ detect_refusal response_text
               @ detect_too_short response_text (min_response_length self) prompt_complexity
               @ detect_repetition response_text;
             score = calculate_score all_issues;
             escalate = (score < quality_threshold self);
             reason =
               (if escalate \<and> all_issues \<noteq> [] then
                  Some (''Quality score '' @ str_int score @ '' below threshold (''
                          @ str_int (quality_threshold self) @ ''). Main issue: ''
                          @ description (max_by_severity (hd all_issues) (tl all_issues)))
                else if escalate then
                  Some (''Quality score '' @ str_int score @ '' below threshold (''
                          @ str_int (quality_threshold self) @ '')'')
                else None)
         in \<lparr>quality_score = score, issues = all_issues, should_escalate = escalate,
              escalation_reason = reason,
              qa_confidence = calculate_confidence all_issues response_text\<rparr>))"

text \<open>The issues that \<open>check\<close> collects for a text that is not blank.\<close>

definition all_detected :: "QualityChecker \<Rightarrow> string \<Rightarrow> int \<Rightarrow> QualityIssue list" where
  "all_detected self r c =
     detect_uncertainty r @ detect_incomplete r @ detect_failed_reasoning r
     @ detect_refusal r @ detect_too_short r (min_response_length self) c
     @ detect_repetition r"

definition spec_score :: "QualityIssue list \<Rightarrow> int" where
  \<comment> \<open>the score as the specification words it: \<open>max(0, 100 - sum(severity * 25))\<close>,
      truncated to an integer\<close>
  "spec_score iss = int_of_float (max 0 (100 - (\<Sum>i \<leftarrow> iss. severity i * 25)))"

definition scenario4_text :: string where
  "scenario4_text =
     ''I'' @ [CHR 0x27] @ ''m not sure, but maybe it'' @ [CHR 0x27]
       @ ''s 42. Possibly. Hard to say.''"

section \<open>Analyzer constants (src/analyzer/constants.py)\<close>

definition REASONING_KEYWORDS :: "(string \<times> string list) list" where
  \<comment> \<open>the dictionary in the order of its keys\<close>
  "REASONING_KEYWORDS =
     [(''high'',
        [''analyze'', ''analyse'', ''compare'', ''contrast'', ''evaluate'', ''assess'', ''design'', ''architect'', ''debug'', ''troubleshoot'', ''optimize'', ''refactor'', ''prove'', ''derive'', ''step by step'', ''step-by-step'', ''explain why'', ''reasoning'', ''trade-off'', ''tradeoff'', ''pros and cons'', ''advantages and disadvantages'', ''critically'', ''in-depth'', ''comprehensive'']),
      (''medium'',
        [''explain'', ''describe'', ''summarize'', ''how does'', ''how do'', ''what if'', ''implement'', ''create'', ''build'', ''develop'', ''solve'', ''calculate'', ''compute'', ''determine'', ''figure out'', ''work through'', ''walk through'', ''help me understand'', ''elaborate'', ''clarify'']),
      (''low'',
        [''what is'', ''what are'', ''define'', ''list'', ''name'', ''when'', ''where'', ''who'', ''translate'', ''convert'', ''format'', ''give me'', ''tell me'', ''show me''])]"

definition KEYWORD_WEIGHTS :: "string \<Rightarrow> real" where
  "KEYWORD_WEIGHTS lvl = (if lvl = ''high'' then 0.9 else if lvl = ''medium'' then 0.6 else if lvl = ''low'' then 0.3 else 0)"

definition CODE_PATTERNS :: "regex list" where
  \<open>CODE_PATTERNS =
     [\<comment> \<open>\<^verbatim>\<open>```[\s\S]*?```\<close>\<close>
      cat [Chr (CHR 0x60), Chr (CHR 0x60), Chr (CHR 0x60), Rep (Cls False [CSpace, CNotSpace]) 0 None False, Chr (CHR 0x60), Chr (CHR 0x60), Chr (CHR 0x60)],
      \<comment> \<open>\<^verbatim>\<open>`[^`]+`\<close>\<close>
      cat [Chr (CHR 0x60), plus (Cls True [CChar (CHR 0x60)]), Chr (CHR 0x60)],
      \<comment> \<open>\<^verbatim>\<open>def\s+\w+\s*\(\<close>\<close>
      cat [lit ''def'', plus (Cls False [CSpace]), plus (Cls False [CWord]), star (Cls False [CSpace]), Chr (CHR ''('')],
      \<comment> \<open>\<^verbatim>\<open>function\s+\w+\s*\(\<close>\<close>
      cat [lit ''function'', plus (Cls False [CSpace]), plus (Cls False [CWord]), star (Cls False [CSpace]), Chr (CHR ''('')],
      \<comment> \<open>\<^verbatim>\<open>class\s+\w+[\s:{]\<close>\<close>
      cat [lit ''class'', plus (Cls False [CSpace]), plus (Cls False [CWord]), Cls False [CSpace, CChar (CHR '':''), CChar (CHR 0x7B)]],
      \<comment> \<open>\<^verbatim>\<open>import\s+[\w.]+\<close>\<close>
      cat [lit ''import'', plus (Cls False [CSpace]), plus (Cls False [CWord, CChar (CHR ''.'')])],
      \<comment> \<open>\<^verbatim>\<open>from\s+[\w.]+\s+import\<close>\<close>
      cat [lit ''from'', plus (Cls False [CSpace]), plus (Cls False [CWord, CChar (CHR ''.'')]), plus (Cls False [CSpace]), lit ''import''],
      \<comment> \<open>\<^verbatim>\<open>const\s+\w+\s*=\<close>\<close>
      cat [lit ''const'', plus (Cls False [CSpace]), plus (Cls False [CWord]), star (Cls False [CSpace]), Chr (CHR 0x3D)],
      \<comment> \<open>\<^verbatim>\<open>let\s+\w+\s*=\<close>\<close>
      cat [lit ''let'', plus (Cls False [CSpace]), plus (Cls False [CWord]), star (Cls False [CSpace]), Chr (CHR 0x3D)],
      \<comment> \<open>\<^verbatim>\<open>var\s+\w+\s*=\<close>\<close>
      cat [lit ''var'', plus (Cls False [CSpace]), plus (Cls False [CWord]), star (Cls False [CSpace]), Chr (CHR 0x3D)],
      \<comment> \<open>\<^verbatim>\<open>public\s+(?:static\s+)?(?:void|int|string|bool)\<close>\<close>
      cat [lit ''public'', plus (Cls False [CSpace]), opt (cat [lit ''static'', plus (Cls False [CSpace])]), alts [lit ''void'', lit ''int'', lit ''string'', lit ''bool'']],
      \<comment> \<open>\<^verbatim>\<open>async\s+(?:def|function)\<close>\<close>
      cat [lit ''async'', plus (Cls False [CSpace]), alts [lit ''def'', lit ''function'']],
      \<comment> \<open>\<^verbatim>\<open>=>\s*{\<close>\<close>
      cat [Chr (CHR 0x3D), Chr (CHR ''>''), star (Cls False [CSpace]), Chr (CHR 0x7B)],
      \<comment> \<open>\<^verbatim>\<open>SELECT\s+.+\s+FROM\<close>\<close>
      cat [lit ''SELECT'', plus (Cls False [CSpace]), plus (Dot), plus (Cls False [CSpace]), lit ''FROM''],
      \<comment> \<open>\<^verbatim>\<open>CREATE\s+TABLE\<close>\<close>
      cat [lit ''CREATE'', plus (Cls False [CSpace]), lit ''TABLE'']]\<close>

definition MATH_PATTERNS :: "regex list" where
  \<open>MATH_PATTERNS =
     [\<comment> \<open>\<^verbatim>\<open>\$\$[\s\S]*?\$\$\<close>\<close>
      cat [Chr (CHR 0x24), Chr (CHR 0x24), Rep (Cls False [CSpace, CNotSpace]) 0 None False, Chr (CHR 0x24), Chr (CHR 0x24)],
      \<comment> \<open>\<^verbatim>\<open>\$[^$]+\$\<close>\<close>
      cat [Chr (CHR 0x24), plus (Cls True [CChar (CHR 0x24)]), Chr (CHR 0x24)],
      \<comment> \<open>\<^verbatim>\<open>\\frac\{\<close>\<close>
      cat [Chr (CHR 0x5C), lit ''frac'', Chr (CHR 0x7B)],
      \<comment> \<open>\<^verbatim>\<open>\\sum\<close>\<close>
      cat [Chr (CHR 0x5C), lit ''sum''],
      \<comment> \<open>\<^verbatim>\<open>\\int\<close>\<close>
      cat [Chr (CHR 0x5C), lit ''int''],
      \<comment> \<open>\<^verbatim>\<open>\d+\s*[\+\-\*\/\^]\s*\d+\<close>\<close>
      cat [plus (Cls False [CDigit]), star (Cls False [CSpace]), Cls False [CChar (CHR 0x2B), CChar (CHR ''-''), CChar (CHR 0x2A), CChar (CHR 0x2F), CChar (CHR 0x5E)], star (Cls False [CSpace]), plus (Cls False [CDigit])],
      \<comment> \<open>\<^verbatim>\<open>\d+\s*[=<>]\s*\d+\<close>\<close>
      cat [plus (Cls False [CDigit]), star (Cls False [CSpace]), Cls False [CChar (CHR 0x3D), CChar (CHR 0x3C), CChar (CHR ''>'')], star (Cls False [CSpace]), plus (Cls False [CDigit])],
      \<comment> \<open>\<^verbatim>\<open>[U+222BU+2211U+220FU+221AU+221EU+2264U+2265U+2260U+00B1U+00D7U+00F7]\<close>\<close>
      Cls False [CChar (CHR 0xB1), CChar (CHR 0xD7), CChar (CHR 0xF7)],
      \<comment> \<open>\<^verbatim>\<open>\b(?:integral|derivative|matrix|vector|equation|formula)\b\<close>\<close>
      cat [WordB, alts [lit ''integral'', lit ''derivative'', lit ''matrix'', lit ''vector'', lit ''equation'', lit ''formula''], WordB],
      \<comment> \<open>\<^verbatim>\<open>\b(?:polynomial|factorial|logarithm|exponential|trigonometric)\b\<close>\<close>
      cat [WordB, alts [lit ''polynomial'', lit ''factorial'', lit ''logarithm'', lit ''exponential'', lit ''trigonometric''], WordB],
      \<comment> \<open>\<^verbatim>\<open>\b(?:probability|statistics|regression|correlation)\b\<close>\<close>
      cat [WordB, alts [lit ''probability'', lit ''statistics'', lit ''regression'', lit ''correlation''], WordB]]\<close>

definition MULTIPART_PATTERNS :: "regex list" where
  \<open>MULTIPART_PATTERNS =
     [\<comment> \<open>\<^verbatim>\<open>^\s*\d+[.)]\s+\<close>\<close>
      cat [Bol, star (Cls False [CSpace]), plus (Cls False [CDigit]), Cls False [CChar (CHR ''.''), CChar (CHR '')'')], plus (Cls False [CSpace])],
      \<comment> \<open>\<^verbatim>\<open>^\s*[a-z][.)]\s+\<close>\<close>
      cat [Bol, star (Cls False [CSpace]), Cls False [CRange (CHR ''a'') (CHR ''z'')], Cls False [CChar (CHR ''.''), CChar (CHR '')'')], plus (Cls False [CSpace])],
      \<comment> \<open>\<^verbatim>\<open>^\s*[-*U+2022]\s+\<close>\<close>
      cat [Bol, star (Cls False [CSpace]), Cls False [CChar (CHR ''-''), CChar (CHR 0x2A)], plus (Cls False [CSpace])],
      \<comment> \<open>\<^verbatim>\<open>\b(?:first|firstly|second|secondly|third|thirdly|finally)\b\<close>\<close>
      cat [WordB, alts [lit ''first'', lit ''firstly'', lit ''second'', lit ''secondly'', lit ''third'', lit ''thirdly'', lit ''finally''], WordB],
      \<comment> \<open>\<^verbatim>\<open>\b(?:additionally|moreover|furthermore|also)\b\<close>\<close>
      cat [WordB, alts [lit ''additionally'', lit ''moreover'', lit ''furthermore'', lit ''also''], WordB],
      \<comment> \<open>\<^verbatim>\<open>\b(?:and also|as well as|in addition|on top of that)\b\<close>\<close>
      cat [WordB, alts [lit ''and also'', lit ''as well as'', lit ''in addition'', lit ''on top of that''], WordB],
      \<comment> \<open>\<^verbatim>\<open>\?\s*\n.*\?\<close>\<close>
      cat [Chr (CHR ''?''), star (Cls False [CSpace]), Chr (CHR 0x0A), star (Dot), Chr (CHR ''?'')],
      \<comment> \<open>\<^verbatim>\<open>\?\s+(?:And|Also|What|How|Why|Can)\<close>\<close>
      cat [Chr (CHR ''?''), plus (Cls False [CSpace]), alts [lit ''And'', lit ''Also'', lit ''What'', lit ''How'', lit ''Why'', lit ''Can'']]]\<close>

record SignalWeights =
  keyword_weight :: real
  code_weight :: real
  math_weight :: real
  multipart_weight :: real
  length_weight :: real

definition SIGNAL_WEIGHTS :: SignalWeights where
  "SIGNAL_WEIGHTS =
     \<lparr>keyword_weight = 0.35, code_weight = 0.25, math_weight = 0.2,
      multipart_weight = 0.1, length_weight = 0.1\<rparr>"

record LengthThresholds =
  very_short :: nat
  short :: nat
  medium :: nat
  long :: nat
  very_long :: nat

definition LENGTH_THRESHOLDS :: LengthThresholds where
  "LENGTH_THRESHOLDS =
     \<lparr>very_short = 50, short = 100, medium = 500, long = 1000, very_long = 2000\<rparr>"

section \<open>Analyzer schemas (src/analyzer/schemas.py)\<close>

datatype ComplexityLevel = LOW | MEDIUM | HIGH

datatype SignalType =
  REASONING_KEYWORD | CODE_BLOCK | MATH_EXPRESSION | MULTIPART_QUESTION | LENGTH

record DetectedSignal =
  signal_type :: SignalType
  "value" :: string
  weight :: real
  position :: "nat option"

record ComplexityAnalysis =
  complexity_score :: int
  confidence :: real
  level :: ComplexityLevel
  detected_signals :: "DetectedSignal list"
  prompt_length :: int
  reasoning :: string

definition is_ComplexityAnalysis :: "ComplexityAnalysis \<Rightarrow> bool" where
  \<comment> \<open>the field constraints that every instance of the schema satisfies\<close>
  "is_ComplexityAnalysis a \<longleftrightarrow>
     0 \<le> complexity_score a \<and> complexity_score a \<le> 100
     \<and> 0 \<le> confidence a \<and> confidence a \<le> 1 \<and> 0 \<le> prompt_length a"

section \<open>Routing (src/router)\<close>

datatype ModelTier = FAST | COMPLEX

record RoutingDecision =
  selected_model :: string
  tier :: ModelTier
  rd_complexity_score :: int
  rd_confidence :: real
  rd_reasoning :: string
  requires_quality_check :: bool
  rd_timestamp :: nat

definition mk_RoutingDecision ::
  "string \<Rightarrow> ModelTier \<Rightarrow> int \<Rightarrow> real \<Rightarrow> string \<Rightarrow> bool \<Rightarrow> nat \<Rightarrow> error + RoutingDecision" where
  "mk_RoutingDecision m t s c r q ts =
     (if 0 \<le> s \<and> s \<le> 100 \<and> 0 \<le> c \<and> c \<le> 1
      then Inr \<lparr>selected_model = m, tier = t, rd_complexity_score = s, rd_confidence = c,
                rd_reasoning = r, requires_quality_check = q, rd_timestamp = ts\<rparr>
      else Inl ValidationError)"

record ThresholdRoutingStrategy =
  low_threshold :: int
  high_threshold :: int

definition ThresholdRoutingStrategy_decide ::
  "ThresholdRoutingStrategy \<Rightarrow> nat \<Rightarrow> ComplexityAnalysis \<Rightarrow> string \<Rightarrow> string
     \<Rightarrow> error + RoutingDecision" where
  \<comment> \<open>\<open>clock\<close> is the reading of \<open>datetime.now\<close>\<close>
  "ThresholdRoutingStrategy_decide self clock analysis fast_m complex_m =
     (let score = complexity_score analysis
      in if score \<ge> high_threshold self then
           mk_RoutingDecision complex_m COMPLEX score (confidence analysis)
             (''High complexity ('' @ str_int score @ '') exceeds threshold (''
                @ str_int (high_threshold self) @ '')'')
             False clock
         else if score < low_threshold self then
           mk_RoutingDecision fast_m FAST score (confidence analysis)
             (''Low complexity ('' @ str_int score @ '') below threshold (''
                @ str_int (low_threshold self) @ '')'')
             False clock
         else
           mk_RoutingDecision fast_m FAST score (confidence analysis)
             (''Medium complexity ('' @ str_int score @ '') - using fast model with quality check'')
             True clock)"

definition analysis_with_score :: "int \<Rightarrow> ComplexityAnalysis" where
  \<comment> \<open>an analysis as the analyzer could return it, for the examples\<close>
  "analysis_with_score s =
     \<lparr>complexity_score = s, confidence = 0.5,
      level = (if s < 30 then LOW else if s < 70 then MEDIUM else HIGH),
      detected_signals = [], prompt_length = 10, reasoning = ''''\<rparr>"

section \<open>Signal detection (src/analyzer/signals.py)\<close>

definition detect_reasoning_keywords :: "string \<Rightarrow> DetectedSignal list" where
  "detect_reasoning_keywords text =
     (let text_lower = lower text
      in concat (map (\<lambda>(lvl, keywords).
                   concat (map (\<lambda>keyword.
                             map (\<lambda>m. \<lparr>signal_type = REASONING_KEYWORD, value = keyword,
                                         weight = KEYWORD_WEIGHTS lvl, position = Some (fst m)\<rparr>)
                               (finditer IGNORECASE (lit keyword) text_lower))
                           keywords))
                 REASONING_KEYWORDS))"

definition detect_code_blocks :: "string \<Rightarrow> DetectedSignal list" where
  "detect_code_blocks text =
     concat (map (\<lambda>pattern.
               map (\<lambda>m. \<lparr>signal_type = CODE_BLOCK, value = preview 50 (snd m),
                           weight = 0.7, position = Some (fst m)\<rparr>)
                 (finditer IGNORECASE_MULTILINE pattern text))
             CODE_PATTERNS)"

definition detect_math_expressions :: "string \<Rightarrow> DetectedSignal list" where
  "detect_math_expressions text =
     concat (map (\<lambda>pattern.
               map (\<lambda>m. \<lparr>signal_type = MATH_EXPRESSION, value = preview 30 (snd m),
                           weight = 0.8, position = Some (fst m)\<rparr>)
                 (finditer IGNORECASE pattern text))
             MATH_PATTERNS)"

definition detect_multipart_questions :: "string \<Rightarrow> DetectedSignal list" where
  "detect_multipart_questions text =
     concat (map (\<lambda>pattern.
               map (\<lambda>m. \<lparr>signal_type = MULTIPART_QUESTION, value = preview 30 (strip (snd m)),
                           weight = 0.5, position = Some (fst m)\<rparr>)
                 (finditer IGNORECASE_MULTILINE pattern text))
             MULTIPART_PATTERNS)"

definition calculate_length_signal :: "string \<Rightarrow> DetectedSignal" where
  "calculate_length_signal text =
     (let n = length text;
          w = (if n < very_short LENGTH_THRESHOLDS then 0.1
               else if n < short LENGTH_THRESHOLDS then 0.2
               else if n < medium LENGTH_THRESHOLDS then 0.4
               else if n < long LENGTH_THRESHOLDS then 0.6
               else if n < very_long LENGTH_THRESHOLDS then 0.8
               else min 0.9 (0.8 + real (n - very_long LENGTH_THRESHOLDS) / 10000))
      in \<lparr>signal_type = LENGTH, value = str_int (int n) @ '' characters'',
           weight = w, position = None\<rparr>)"

fun upsert ::
  "SignalType \<times> string \<Rightarrow> DetectedSignal \<Rightarrow> ((SignalType \<times> string) \<times> DetectedSignal) list
     \<Rightarrow> ((SignalType \<times> string) \<times> DetectedSignal) list" where
  \<comment> \<open>\<open>if key not in seen or signal.weight > seen[key].weight: seen[key] = signal\<close> on a
      dictionary that keeps its keys in the order of their first insertion\<close>
  "upsert key s [] = [(key, s)]"
| "upsert key s ((k, v) # kvs) =
     (if k = key then (k, if weight s > weight v then s else v) # kvs
      else (k, v) # upsert key s kvs)"

definition deduplicate_signals :: "DetectedSignal list \<Rightarrow> DetectedSignal list" where
  "deduplicate_signals signals =
     map snd (foldl (\<lambda>seen s. upsert (signal_type s, lower (value s)) s seen) [] signals)"

section \<open>Prompt analyzer (src/analyzer/service.py)\<close>

definition mk_ComplexityAnalysis ::
  "int \<Rightarrow> real \<Rightarrow> ComplexityLevel \<Rightarrow> DetectedSignal list \<Rightarrow> int \<Rightarrow> string
     \<Rightarrow> error + ComplexityAnalysis" where
  "mk_ComplexityAnalysis s c l sigs n r =
     (let a = \<lparr>complexity_score = s, confidence = c, level = l, detected_signals = sigs,
               prompt_length = n, reasoning = r\<rparr>
      in if is_ComplexityAnalysis a then Inr a else Inl ValidationError)"

definition aggregate_signals :: "DetectedSignal list \<Rightarrow> real" where
  \<comment> \<open>the local function of \<open>_calculate_score\<close>\<close>
  "aggregate_signals signals =
     (if signals = [] then 0.0
      else (let weights = rev (sort (map weight signals));
                total = (\<Sum>(i, w) \<leftarrow> enumerate 0 (take 5 weights). w * 0.7 ^ i)
            in min 1.0 total))"

definition analyzer_calculate_score ::
  "SignalWeights \<Rightarrow> DetectedSignal list \<Rightarrow> DetectedSignal list \<Rightarrow> DetectedSignal list
     \<Rightarrow> DetectedSignal list \<Rightarrow> DetectedSignal \<Rightarrow> int" where
  \<comment> \<open>\<open>PromptAnalyzer._calculate_score\<close>\<close>
  "analyzer_calculate_score weights keyword_signals code_signals math_signals
       multipart_signals length_signal =
     (let keyword_score = aggregate_signals keyword_signals * keyword_weight weights;
          code_score = aggregate_signals code_signals * code_weight weights;
          math_score = aggregate_signals math_signals * math_weight weights;
          multipart_score = aggregate_signals multipart_signals * multipart_weight weights;
          length_score = weight length_signal * length_weight weights;
          total = keyword_score + code_score + math_score + multipart_score + length_score
      in int_of_float (min 100 (total * 100)))"

definition analyzer_calculate_confidence :: "DetectedSignal list \<Rightarrow> int \<Rightarrow> real" where
  \<comment> \<open>\<open>PromptAnalyzer._calculate_confidence\<close>\<close>
  "analyzer_calculate_confidence signals score =
     (if signals = [] then 0.5
      else (let avg_weight = sum_list (map weight signals) / real (length signals);
                count_factor = min 1.0 (real (length signals) / 5);
                extremity = real_of_int \<bar>score - 50\<bar> / 50
            in round2 (avg_weight * 0.4 + count_factor * 0.3 + extremity * 0.3)))"

definition score_to_level :: "int \<Rightarrow> ComplexityLevel" where
  "score_to_level score = (if score < 30 then LOW else if score < 70 then MEDIUM else HIGH)"

definition generate_reasoning ::
  "DetectedSignal list \<Rightarrow> DetectedSignal list \<Rightarrow> DetectedSignal list \<Rightarrow> DetectedSignal list
     \<Rightarrow> DetectedSignal \<Rightarrow> int \<Rightarrow> string" where
  "generate_reasoning keyword_signals code_signals math_signals multipart_signals
       length_signal score =
     (let reasons =
            (if keyword_signals \<noteq> [] then
               [''Contains reasoning keywords: ''
                  @ join '', '' (map value (take 3 keyword_signals))]
             else [])
            @ (if code_signals \<noteq> [] then
                 [''Contains '' @ str_int (int (length code_signals)) @ '' code block(s)'']
               else [])
            @ (if math_signals \<noteq> [] then [''Contains mathematical expressions''] else [])
            @ (if multipart_signals \<noteq> [] then [''Contains multi-part question structure'']
               else [])
            @ [''Prompt length: '' @ value length_signal]
      in ''Score '' @ str_int score @ ''/100. '' @ join ''; '' reasons)"

definition analyze :: "SignalWeights \<Rightarrow> string \<Rightarrow> error + ComplexityAnalysis" where
  \<comment> \<open>\<open>PromptAnalyzer.analyze\<close>; the first argument is \<open>self.weights\<close>\<close>
  "analyze weights prompt =
     (if prompt = [] \<or> strip prompt = [] then
        mk_ComplexityAnalysis 0 1.0 LOW [] 0 ''Empty prompt''
      else
        (let keyword_signals = deduplicate_signals (detect_reasoning_keywords prompt);
             code_signals = deduplicate_signals (detect_code_blocks prompt);
             math_signals = deduplicate_signals (detect_math_expressions prompt);
             multipart_signals = deduplicate_signals (detect_multipart_questions prompt);
             length_signal = calculate_length_signal prompt;
             all_signals = keyword_signals @ code_signals @ math_signals @ multipart_signals
                             @ [length_signal];
             score = analyzer_calculate_score weights keyword_signals code_signals math_signals
                       multipart_signals length_signal;
             conf = analyzer_calculate_confidence all_signals score
         in mk_ComplexityAnalysis score conf (score_to_level score) all_signals
              (int (length prompt))
              (generate_reasoning keyword_signals code_signals math_signals multipart_signals
                 length_signal score)))"

subsection \<open>Auxiliary notions for the proofs about the score\<close>

definition is_DetectedSignal :: "DetectedSignal \<Rightarrow> bool" where
  \<comment> \<open>the field constraint that every instance of the schema satisfies\<close>
  "is_DetectedSignal s \<longleftrightarrow> 0 \<le> weight s \<and> weight s \<le> 1"

definition nonneg_weights :: "SignalWeights \<Rightarrow> bool" where
  "nonneg_weights w \<longleftrightarrow>
     0 \<le> keyword_weight w \<and> 0 \<le> code_weight w \<and> 0 \<le> math_weight w
     \<and> 0 \<le> multipart_weight w \<and> 0 \<le> length_weight w"

fun ins_desc :: "real \<Rightarrow> real list \<Rightarrow> real list" where
  \<comment> \<open>insertion into a list in descending order\<close>
  "ins_desc x [] = [x]"
| "ins_desc x (l # ls) = (if l \<le> x then x # l # ls else l # ins_desc x ls)"

definition sort_desc :: "real list \<Rightarrow> real list" where
  "sort_desc ws = foldr ins_desc ws []"

fun dsum :: "real \<Rightarrow> nat \<Rightarrow> real list \<Rightarrow> real" where
  \<comment> \<open>the sum of the first \<open>n\<close> elements, the first times \<open>c\<close> and each further one times
      0.7 of the factor before\<close>
  "dsum c 0 ws = 0"
| "dsum c (Suc n) [] = 0"
| "dsum c (Suc n) (w # ws) = w * c + dsum (c * 0.7) n ws"

abbreviation desc :: "real list \<Rightarrow> bool" where
  "desc \<equiv> sorted_wrt (\<lambda>x y. y \<le> x)"

definition signal_explain :: DetectedSignal where
  "signal_explain =
     \<lparr>signal_type = REASONING_KEYWORD, value = ''explain'', weight = 0.6, position = Some 0\<rparr>"

definition signal_analyze :: DetectedSignal where
  "signal_analyze =
     \<lparr>signal_type = REASONING_KEYWORD, value = ''analyze'', weight = 0.9, position = Some 12\<rparr>"

definition signal_length_20 :: DetectedSignal where
  "signal_length_20 =
     \<lparr>signal_type = LENGTH, value = ''20 characters'', weight = 0.1, position = None\<rparr>"

section \<open>Cost accounting (src/metrics/service.py, src/llm/client.py)\<close>

definition MetricsService_calculate_cost :: "ChatResponse \<Rightarrow> string \<Rightarrow> real" where
  \<comment> \<open>\<open>MetricsService._calculate_cost\<close>\<close>
  "MetricsService_calculate_cost response m =
     (let is_flash = (contains ''flash'' (lower m) \<and> \<not> contains ''pro'' (lower m));
          input_rate = (if is_flash then 0.075 else 1.25);
          output_rate = (if is_flash then 0.30 else 5.00);
          input_cost = (real_of_int (prompt_tokens (usage response)) / 1000000) * input_rate;
          output_cost = (real_of_int (completion_tokens (usage response)) / 1000000) * output_rate
      in input_cost + output_cost)"

text \<open>The rates of the settings that the client's own cost function reads.\<close>

record CostSettings =
  cost_flash_input :: real
  cost_flash_output :: real
  cost_pro_input :: real
  cost_pro_output :: real

definition default_cost_settings :: CostSettings where
  "default_cost_settings =
     \<lparr>cost_flash_input = 0.075, cost_flash_output = 0.30,
      cost_pro_input = 1.25, cost_pro_output = 5.00\<rparr>"

definition GeminiClient_calculate_cost :: "CostSettings \<Rightarrow> string \<Rightarrow> int \<Rightarrow> int \<Rightarrow> real" where
  \<comment> \<open>\<open>GeminiClient.calculate_cost\<close>, the sibling of the function above\<close>
  "GeminiClient_calculate_cost settings m p_tokens c_tokens =
     (let flash = (contains ''flash'' (lower m) \<and> \<not> contains ''thinking'' (lower m));
          input_rate = (if flash then cost_flash_input settings else cost_pro_input settings);
          output_rate = (if flash then cost_flash_output settings else cost_pro_output settings);
          input_cost = (real_of_int p_tokens / 1000000) * input_rate;
          output_cost = (real_of_int c_tokens / 1000000) * output_rate
      in input_cost + output_cost)"

definition spec_cost :: "string \<Rightarrow> int \<Rightarrow> int \<Rightarrow> real" where
  \<comment> \<open>the cost formula as the specification words it\<close>
  "spec_cost m p_tokens c_tokens =
     (if contains ''flash'' (lower m) \<and> \<not> contains ''thinking'' (lower m)
      then real_of_int p_tokens * 0.075 / 1000000 + real_of_int c_tokens * 0.30 / 1000000
      else real_of_int p_tokens * 1.25 / 1000000 + real_of_int c_tokens * 5.00 / 1000000)"

definition thinking_response :: ChatResponse where
  "thinking_response =
     \<lparr>resp_id = ''resp'', content = ''42'', model = ''gemini-2.0-flash-thinking-exp'',
      usage = \<lparr>prompt_tokens = 1000000, completion_tokens = 1000000, total_tokens = 2000000\<rparr>,
      finish_reason = ''stop'', created_at = 0, latency_ms = 100\<rparr>"

section \<open>The escalation loop: proofs\<close>

lemma mk_EscalationStep_Inr:
  "mk_EscalationStep m p q e l t = Inr s \<Longrightarrow>
     model_used s = m \<and> escalated s = e \<and> step_latency_ms s = l \<and> step_quality_score s = q"
  by (auto simp: mk_EscalationStep_def split: if_splits)

lemma escalation_loop_Cons_cases:
  assumes "escalation_loop h ms c t mt (a # atts) st = Inr st'"
  obtains (stop) step where
      "ls_steps st' = ls_steps st @ [step]" "ls_current_model st' = ls_current_model st"
      "model_used step = ls_current_model st" "\<not> escalated step"
      "ls_total_latency_ms st' = ls_total_latency_ms st + step_latency_ms step"
  | (continue) step st2 where
      "a < max_depth h" "escalated step" "model_used step = ls_current_model st"
      "ls_steps st2 = ls_steps st @ [step]"
      "ls_total_latency_ms st2 = ls_total_latency_ms st + step_latency_ms step"
      "escalation_loop h ms c t mt atts st2 = Inr st'"
proof -
  obtain r w where g: "generate h (ls_world st) ms (ls_current_model st) t mt = (Inr r, w)"
    using assms by (auto split: prod.splits sum.splits)
  define q where "q = quality_check h (content r) c"
  define e where "e \<longleftrightarrow> should_escalate q \<and> a < max_depth h \<and> ls_current_model st \<noteq> complex_model h"
  obtain step where s: "mk_EscalationStep (ls_current_model st) (preview 200 (content r))
       (quality_score q) e (latency_ms r) (now h w) = Inr step"
    using assms g by (auto simp: Let_def q_def e_def split: sum.splits)
  note f = mk_EscalationStep_Inr[OF s]
  show thesis
  proof (cases e)
    case True
    then show ?thesis
      using assms g s f by (intro continue[of step]) (auto simp: Let_def q_def e_def)
  next
    case False
    then show ?thesis
      using assms g s f
      by (intro stop[of step]) (auto simp: Let_def q_def e_def split: if_splits)
  qed
qed

lemma escalation_loop_length:
  "escalation_loop h ms c t mt atts st = Inr st' \<Longrightarrow>
     length (ls_steps st') \<le> length (ls_steps st) + length atts"
proof (induction atts arbitrary: st)
  case Nil
  then show ?case by simp
next
  case (Cons a atts)
  from Cons.prems show ?case
  proof (cases rule: escalation_loop_Cons_cases)
    case (stop step)
    then show ?thesis by simp
  next
    case (continue step st2)
    from Cons.IH[OF continue(6)] continue(4) show ?thesis by simp
  qed
qed

lemma escalation_loop_latency:
  "escalation_loop h ms c t mt atts st = Inr st' \<Longrightarrow>
     ls_total_latency_ms st = sum_list (map step_latency_ms (ls_steps st)) \<Longrightarrow>
     ls_total_latency_ms st' = sum_list (map step_latency_ms (ls_steps st'))"
proof (induction atts arbitrary: st)
  case Nil
  then show ?case by simp
next
  case (Cons a atts)
  from Cons.prems(1) show ?case
  proof (cases rule: escalation_loop_Cons_cases)
    case (stop step)
    then show ?thesis using Cons.prems(2) by simp
  next
    case (continue step st2)
    show ?thesis
      by (rule Cons.IH[OF continue(6)]) (simp add: continue Cons.prems(2))
  qed
qed

lemma escalation_loop_settled:
  "escalation_loop h ms c t mt atts st = Inr st' \<Longrightarrow>
     atts \<noteq> [] \<Longrightarrow> max_depth h \<le> last atts \<Longrightarrow> settled st'"
proof (induction atts arbitrary: st)
  case Nil
  then show ?case by simp
next
  case (Cons a atts)
  from Cons.prems(1) show ?case
  proof (cases rule: escalation_loop_Cons_cases)
    case (stop step)
    then show ?thesis by (simp add: settled_def)
  next
    case (continue step st2)
    from continue(1) Cons.prems(3) have ne: "atts \<noteq> []" by auto
    with Cons.prems(3) have "max_depth h \<le> last atts" by simp
    with ne show ?thesis by (intro Cons.IH[OF continue(6)])
  qed
qed

lemma escalation_loop_successor:
  "escalation_loop h ms c t mt atts st = Inr st' \<Longrightarrow>
     atts \<noteq> [] \<Longrightarrow> max_depth h \<le> last atts \<Longrightarrow>
     \<forall>i < length (ls_steps st'). escalated (ls_steps st' ! i) \<longrightarrow> Suc i < length (ls_steps st')"
proof -
  assume a: "escalation_loop h ms c t mt atts st = Inr st'" "atts \<noteq> []" "max_depth h \<le> last atts"
  from escalation_loop_settled[OF a] have s: "ls_steps st' \<noteq> []" "\<not> escalated (last (ls_steps st'))"
    by (auto simp: settled_def)
  show ?thesis
  proof (intro allI impI)
    fix i assume i: "i < length (ls_steps st')" "escalated (ls_steps st' ! i)"
    have "i \<noteq> length (ls_steps st') - 1" using s i by (auto simp: last_conv_nth)
    with i show "Suc i < length (ls_steps st')" by simp
  qed
qed

lemma last_range_py: "0 < n \<Longrightarrow> last (range_py n) = n - 1"
  by (simp add: range_py_def last_map last_upt nat_diff_distrib' of_nat_diff)

lemma handle_with_escalation_Inr:
  assumes "handle_with_escalation h w ms m c t mt = Inr (r, chain)"
  obtains st0 st where
    "ls_steps st0 = []" "ls_total_latency_ms st0 = 0"
    "escalation_loop h ms c t mt (range_py (max_depth h + 1)) st0 = Inr st"
    "steps chain = ls_steps st" "final_model chain = ls_current_model st"
    "total_attempts chain = int (length (ls_steps st))"
    "total_latency_ms chain = ls_total_latency_ms st"
    "1 \<le> length (ls_steps st)"
proof -
  define st0 :: "'a loop_state" where
    "st0 = \<lparr>ls_steps = [], ls_responses = [], ls_models_used = [],
            ls_total_latency_ms = 0, ls_current_model = m,
            ls_loop_prevented = False, ls_final_response = None,
            ls_world = snd (uuid4_hex h w)\<rparr>"
  from assms obtain st where
    l: "escalation_loop h ms c t mt (range_py (max_depth h + 1)) st0 = Inr st"
    by (auto simp: handle_with_escalation_def Let_def st0_def split: prod.splits sum.splits)
  from assms l have
    "steps chain = ls_steps st \<and> final_model chain = ls_current_model st
     \<and> total_attempts chain = int (length (ls_steps st))
     \<and> total_latency_ms chain = ls_total_latency_ms st
     \<and> 1 \<le> length (ls_steps st)"
    by (auto simp: handle_with_escalation_def Let_def st0_def mk_EscalationChain_def
          split: prod.splits sum.splits option.splits if_splits)
  with l show thesis by (intro that[of st0 st]) (simp_all add: st0_def)
qed

lemma fixture_run:
  "handle_with_escalation fixture_handler 0 fixture_messages ''F'' 55 0.7 None
     = Inr (fixture_response ''C'' ''a good answer'', fixture_chain)"
  by (simp add: handle_with_escalation_def fixture_handler_def fixture_messages_def
        fixture_chain_def fixture_response_def fixture_assessment_def range_py_def
        mk_EscalationChain_def mk_EscalationStep_def preview_def Let_def upt_rec)

text \<open>
  Claim C1. Whenever \<open>handle_with_escalation\<close> returns normally (neither the back-end nor a
  schema constructor raised), the chain has at least one step and at most
  \<open>max_depth + 1\<close> steps (one per run of the loop body), and \<open>total_attempts\<close> is the number
  of steps.
\<close>

theorem escalation_chain_length:
  assumes "handle_with_escalation h w ms m c t mt = Inr (r, chain)"
  shows "1 \<le> length (steps chain) \<and> int (length (steps chain)) \<le> max_depth h + 1
         \<and> total_attempts chain = int (length (steps chain))"
proof -
  from assms obtain st0 st where a:
    "ls_steps st0 = []"
    "escalation_loop h ms c t mt (range_py (max_depth h + 1)) st0 = Inr st"
    "steps chain = ls_steps st" "total_attempts chain = int (length (ls_steps st))"
    "1 \<le> length (ls_steps st)"
    by (rule handle_with_escalation_Inr)
  from escalation_loop_length[OF a(2)] a(1,5)
  have "int (length (ls_steps st)) \<le> max_depth h + 1"
    by (simp add: range_py_def)
  with a show ?thesis by simp
qed

theorem escalation_chain_length_witness:
  "handle_with_escalation fixture_handler 0 fixture_messages ''F'' 55 0.7 None
     = Inr (fixture_response ''C'' ''a good answer'', fixture_chain)
   \<and> 1 \<le> length (steps fixture_chain)
   \<and> int (length (steps fixture_chain)) \<le> max_depth fixture_handler + 1
   \<and> total_attempts fixture_chain = int (length (steps fixture_chain))"
  using escalation_chain_length[OF fixture_run] fixture_run by simp

text \<open>
  Claim C2. In every chain that \<open>handle_with_escalation\<close> returns, \<open>final_model\<close> is the
  \<open>model_used\<close> of the last step and \<open>total_latency_ms\<close> is the sum of the steps'
  \<open>latency_ms\<close>.
\<close>

theorem escalation_chain_consistent:
  assumes "handle_with_escalation h w ms m c t mt = Inr (r, chain)"
  shows "steps chain \<noteq> [] \<and> final_model chain = model_used (last (steps chain))
         \<and> total_latency_ms chain = sum_list (map step_latency_ms (steps chain))"
proof -
  from assms obtain st0 st where a:
    "ls_steps st0 = []" "ls_total_latency_ms st0 = 0"
    "escalation_loop h ms c t mt (range_py (max_depth h + 1)) st0 = Inr st"
    "steps chain = ls_steps st" "final_model chain = ls_current_model st"
    "total_latency_ms chain = ls_total_latency_ms st"
    "1 \<le> length (ls_steps st)"
    by (rule handle_with_escalation_Inr)
  from escalation_loop_length[OF a(3)] a(1,7) have pos: "0 < max_depth h + 1"
    by (auto simp: range_py_def)
  then have ne: "range_py (max_depth h + 1) \<noteq> []" by (simp add: range_py_def)
  from pos have "max_depth h \<le> last (range_py (max_depth h + 1))"
    by (simp add: last_range_py)
  from escalation_loop_settled[OF a(3) ne this] have "settled st" .
  moreover from escalation_loop_latency[OF a(3)] a(1,2)
  have "ls_total_latency_ms st = sum_list (map step_latency_ms (ls_steps st))" by simp
  ultimately show ?thesis using a by (simp add: settled_def)
qed

theorem escalation_chain_consistent_witness:
  "handle_with_escalation fixture_handler 0 fixture_messages ''F'' 55 0.7 None
     = Inr (fixture_response ''C'' ''a good answer'', fixture_chain)
   \<and> final_model fixture_chain = model_used (last (steps fixture_chain))
   \<and> total_latency_ms fixture_chain = sum_list (map step_latency_ms (steps fixture_chain))
   \<and> final_model fixture_chain = ''C'' \<and> total_latency_ms fixture_chain = 200"
  using escalation_chain_consistent[OF fixture_run] fixture_run
  by (simp add: fixture_chain_def)

text \<open>
  Claim C9. In every chain that \<open>handle_with_escalation\<close> returns, the last step is not
  marked \<open>escalated\<close>, and every step that is marked \<open>escalated\<close> is followed by a further
  step.
\<close>

theorem escalated_step_has_successor:
  assumes "handle_with_escalation h w ms m c t mt = Inr (r, chain)"
  shows "steps chain \<noteq> [] \<and> \<not> escalated (last (steps chain))
         \<and> (\<forall>i < length (steps chain).
               escalated (steps chain ! i) \<longrightarrow> Suc i < length (steps chain))"
proof -
  from assms obtain st0 st where a:
    "ls_steps st0 = []"
    "escalation_loop h ms c t mt (range_py (max_depth h + 1)) st0 = Inr st"
    "steps chain = ls_steps st"
    "1 \<le> length (ls_steps st)"
    by (rule handle_with_escalation_Inr)
  from escalation_loop_length[OF a(2)] a(1,4) have pos: "0 < max_depth h + 1"
    by (auto simp: range_py_def)
  then have ne: "range_py (max_depth h + 1) \<noteq> []" by (simp add: range_py_def)
  from pos have le: "max_depth h \<le> last (range_py (max_depth h + 1))"
    by (simp add: last_range_py)
  from escalation_loop_settled[OF a(2) ne le] escalation_loop_successor[OF a(2) ne le] a(3)
  show ?thesis by (simp add: settled_def)
qed

theorem escalated_step_has_successor_witness:
  "handle_with_escalation fixture_handler 0 fixture_messages ''F'' 55 0.7 None
     = Inr (fixture_response ''C'' ''a good answer'', fixture_chain)
   \<and> escalated (steps fixture_chain ! 0) \<and> Suc 0 < length (steps fixture_chain)
   \<and> \<not> escalated (last (steps fixture_chain))"
  using escalated_step_has_successor[OF fixture_run] fixture_run
  by (simp add: fixture_chain_def)

section \<open>Threshold routing: proofs\<close>

text \<open>
  The strategy tries its tests in the order of the source: \<open>score \<ge> high\<close> first, then
  \<open>score < low\<close>. This holds for any pair of thresholds.
\<close>

lemma threshold_decide_in_order:
  assumes "is_ComplexityAnalysis a"
  shows "\<exists>d. ThresholdRoutingStrategy_decide s clock a fm cm = Inr d
     \<and> (complexity_score a \<ge> high_threshold s \<longrightarrow>
          selected_model d = cm \<and> tier d = COMPLEX \<and> \<not> requires_quality_check d)
     \<and> (complexity_score a < high_threshold s \<and> complexity_score a < low_threshold s \<longrightarrow>
          selected_model d = fm \<and> tier d = FAST \<and> \<not> requires_quality_check d)
     \<and> (complexity_score a < high_threshold s \<and> low_threshold s \<le> complexity_score a \<longrightarrow>
          selected_model d = fm \<and> tier d = FAST \<and> requires_quality_check d)"
  using assms
  by (auto simp: ThresholdRoutingStrategy_decide_def mk_RoutingDecision_def Let_def
        is_ComplexityAnalysis_def)

text \<open>
  Claim C6. For every analysis, the Threshold strategy with parameters \<open>low < high\<close> (the
  lower and the upper bound, 30 and 70 by default) returns the complex model without
  quality check when \<open>score \<ge> high\<close>, the fast model without quality check when
  \<open>score < low\<close>, and the fast model with quality check otherwise; so a score equal to
  \<open>high\<close> goes complex and a score equal to \<open>low\<close> goes fast-with-check.
\<close>

theorem threshold_decide_cases:
  assumes "is_ComplexityAnalysis a" and "low_threshold s < high_threshold s"
  shows "\<exists>d. ThresholdRoutingStrategy_decide s clock a fm cm = Inr d
     \<and> (complexity_score a \<ge> high_threshold s \<longrightarrow>
          selected_model d = cm \<and> tier d = COMPLEX \<and> \<not> requires_quality_check d)
     \<and> (complexity_score a < low_threshold s \<longrightarrow>
          selected_model d = fm \<and> tier d = FAST \<and> \<not> requires_quality_check d)
     \<and> (\<not> complexity_score a \<ge> high_threshold s \<and> \<not> complexity_score a < low_threshold s \<longrightarrow>
          selected_model d = fm \<and> tier d = FAST \<and> requires_quality_check d)
     \<and> (complexity_score a = high_threshold s \<longrightarrow>
          selected_model d = cm \<and> tier d = COMPLEX \<and> \<not> requires_quality_check d)
     \<and> (complexity_score a = low_threshold s \<longrightarrow>
          selected_model d = fm \<and> tier d = FAST \<and> requires_quality_check d)"
proof -
  from threshold_decide_in_order[OF assms(1), of s clock fm cm] obtain d where d:
    "ThresholdRoutingStrategy_decide s clock a fm cm = Inr d"
    "complexity_score a \<ge> high_threshold s \<longrightarrow>
       selected_model d = cm \<and> tier d = COMPLEX \<and> \<not> requires_quality_check d"
    "complexity_score a < high_threshold s \<and> complexity_score a < low_threshold s \<longrightarrow>
       selected_model d = fm \<and> tier d = FAST \<and> \<not> requires_quality_check d"
    "complexity_score a < high_threshold s \<and> low_threshold s \<le> complexity_score a \<longrightarrow>
       selected_model d = fm \<and> tier d = FAST \<and> requires_quality_check d"
    by blast
  show ?thesis
  proof (intro exI[of _ d] conjI impI)
    show "ThresholdRoutingStrategy_decide s clock a fm cm = Inr d" by (rule d(1))
  qed (use d(2,3,4) assms(2) in auto)
qed

theorem threshold_decide_cases_witness:
  "is_ComplexityAnalysis (analysis_with_score 30)
   \<and> low_threshold \<lparr>low_threshold = 30, high_threshold = 70\<rparr>
       < high_threshold \<lparr>low_threshold = 30, high_threshold = 70\<rparr>
   \<and> (\<exists>d. ThresholdRoutingStrategy_decide \<lparr>low_threshold = 30, high_threshold = 70\<rparr> 0
             (analysis_with_score 30) ''fast-model'' ''complex-model'' = Inr d
          \<and> selected_model d = ''fast-model'' \<and> tier d = FAST \<and> requires_quality_check d)"
proof -
  have v: "is_ComplexityAnalysis (analysis_with_score 30)"
    by (simp add: is_ComplexityAnalysis_def analysis_with_score_def)
  have o: "low_threshold \<lparr>low_threshold = 30, high_threshold = 70\<rparr>
             < high_threshold \<lparr>low_threshold = 30, high_threshold = 70\<rparr>" by simp
  from threshold_decide_cases[OF v o, of 0 "''fast-model''" "''complex-model''"]
  show ?thesis using v by (auto simp: analysis_with_score_def)
qed

section \<open>Cost accounting: proofs\<close>

lemma lower_thinking_model:
  "lower ''gemini-2.0-flash-thinking-exp'' = ''gemini-2.0-flash-thinking-exp''"
  by code_simp

text \<open>
  Claim C4: the record builder prices a request at the flash rates exactly when the
  lower-cased model name contains \<open>flash\<close> and does not contain \<open>thinking\<close>.
  \<open>MetricsService._calculate_cost\<close> tests for \<open>pro\<close> where the client's own
  \<open>calculate_cost\<close> and the tier test of \<open>log_request\<close> test for \<open>thinking\<close>. For the default
  complex model and a million tokens each way it charges 0.375 USD; the formula of the
  claim, and the client's function on the default rates, give 6.25 USD.
\<close>

theorem metrics_cost_of_thinking_model:
  "MetricsService_calculate_cost thinking_response ''gemini-2.0-flash-thinking-exp'' = 0.375
   \<and> spec_cost ''gemini-2.0-flash-thinking-exp'' 1000000 1000000 = 6.25
   \<and> GeminiClient_calculate_cost default_cost_settings
        ''gemini-2.0-flash-thinking-exp'' 1000000 1000000 = 6.25"
  by (simp add: MetricsService_calculate_cost_def spec_cost_def GeminiClient_calculate_cost_def
        default_cost_settings_def lower_thinking_model thinking_response_def)

section \<open>Quality checker: proofs\<close>

lemma strip_eq_Nil: "strip s = [] \<longleftrightarrow> (\<forall>c \<in> set s. isspace c)"
proof
  assume "strip s = []"
  then have e: "dropWhile isspace (rev (dropWhile isspace s)) = []"
    by (simp add: strip_def)
  show "\<forall>c \<in> set s. isspace c"
  proof (cases "dropWhile isspace s")
    case Nil
    then show ?thesis by (simp add: dropWhile_eq_Nil_conv)
  next
    case (Cons x xs)
    then have "\<not> isspace x" using hd_dropWhile[of isspace s] by auto
    moreover from e Cons have "isspace x" by (auto simp: dropWhile_eq_Nil_conv)
    ultimately show ?thesis by simp
  qed
next
  assume "\<forall>c \<in> set s. isspace c"
  then show "strip s = []" by (auto simp: strip_def dest: set_dropWhileD)
qed

lemma int_of_float_max: "max 0 (int_of_float x) = int_of_float (max 0 x)"
proof (cases "0 \<le> x")
  case True
  then have "max 0 x = x" "0 \<le> \<lfloor>x\<rfloor>" by simp_all
  with True show ?thesis by (simp add: int_of_float_def)
next
  case False
  then have "max 0 x = 0" "\<lceil>x\<rceil> \<le> 0" by (simp_all add: ceiling_le_zero)
  with False show ?thesis by (simp add: int_of_float_def)
qed

lemma calculate_score_spec: "calculate_score iss = spec_score iss"
proof (cases "iss = []")
  case True
  then show ?thesis by (simp add: calculate_score_def spec_score_def int_of_float_def)
next
  case False
  then show ?thesis
    by (simp add: calculate_score_def spec_score_def int_of_float_max Let_def)
qed

lemma check_not_blank:
  assumes "strip r \<noteq> []"
  shows "issues (check self r c) = all_detected self r c"
    and "quality_score (check self r c) = calculate_score (all_detected self r c)"
    and "should_escalate (check self r c)
           = (calculate_score (all_detected self r c) < quality_threshold self)"
proof -
  from assms have "r \<noteq> []" by (auto simp: strip_def)
  with assms show "issues (check self r c) = all_detected self r c"
    and "quality_score (check self r c) = calculate_score (all_detected self r c)"
    and "should_escalate (check self r c)
           = (calculate_score (all_detected self r c) < quality_threshold self)"
    unfolding check_def Let_def all_detected_def by simp_all
qed

lemma strip_space: "strip '' '' = []"
  by (simp add: strip_eq_Nil isspace_def ord_def)

text \<open>
  Claim C3, as stated, covers every non-empty response text. A text of white space alone
  is not empty, and \<open>check\<close> gives it the fixed assessment of an empty response: score 0
  with one issue of severity 1, where the formula gives \<open>100 - 25 = 75\<close>.
\<close>

theorem check_blank_score_counterexample:
  "'' '' \<noteq> [] \<and> quality_score (check default_checker '' '' 50) = 0
   \<and> spec_score (issues (check default_checker '' '' 50)) = 75"
  by (simp add: check_def strip_space spec_score_def int_of_float_def)

lemma check_blank:
  assumes "strip r = []"
  shows "check self r c =
           \<lparr>quality_score = 0,
            issues = [\<lparr>issue_type = TOO_SHORT, description = ''Response is empty'',
                       severity = 1, evidence = Some ''(empty response)''\<rparr>],
            should_escalate = True,
            escalation_reason = Some ''Empty response received'',
            qa_confidence = 1\<rparr>"
  using assms by (simp add: check_def)

text \<open>
  Claim C3, amended: for every response text that has a character other than white space,
  and every complexity, the score of \<open>check\<close> is \<open>max(0, 100 - sum(severity * 25))\<close> truncated
  to an integer, \<open>should_escalate\<close> is \<open>score < quality_threshold\<close>, and the score is 100
  when no issue was found. A text of white space only is treated as an empty response:
  score 0, one too-short issue of severity 1, and \<open>should_escalate\<close> true.
\<close>

theorem check_score_formula:
  "(strip r \<noteq> [] \<longrightarrow>
      quality_score (check self r c) = spec_score (issues (check self r c))
      \<and> should_escalate (check self r c)
          = (quality_score (check self r c) < quality_threshold self)
      \<and> (issues (check self r c) = [] \<longrightarrow> quality_score (check self r c) = 100))
   \<and> (strip r = [] \<longrightarrow>
      quality_score (check self r c) = 0
      \<and> issues (check self r c)
          = [\<lparr>issue_type = TOO_SHORT, description = ''Response is empty'',
               severity = 1, evidence = Some ''(empty response)''\<rparr>]
      \<and> should_escalate (check self r c))"
proof (intro conjI impI)
  assume nb: "strip r \<noteq> []"
  note n = check_not_blank[OF nb, of self c]
  show "quality_score (check self r c) = spec_score (issues (check self r c))"
    unfolding n by (simp add: calculate_score_spec)
  show "should_escalate (check self r c)
          = (quality_score (check self r c) < quality_threshold self)"
    unfolding n by simp
  show "quality_score (check self r c) = 100" if "issues (check self r c) = []"
    using that unfolding n by (simp add: calculate_score_def)
next
  assume b: "strip r = []"
  show "quality_score (check self r c) = 0" by (simp add: check_blank[OF b])
  show "issues (check self r c)
          = [\<lparr>issue_type = TOO_SHORT, description = ''Response is empty'',
               severity = 1, evidence = Some ''(empty response)''\<rparr>]"
    by (simp add: check_blank[OF b])
  show "should_escalate (check self r c)" by (simp add: check_blank[OF b])
qed

theorem check_score_formula_witness:
  "strip ''Paris.'' \<noteq> []
   \<and> quality_score (check default_checker ''Paris.'' 50)
       = spec_score (issues (check default_checker ''Paris.'' 50))
   \<and> should_escalate (check default_checker ''Paris.'' 50)
       = (quality_score (check default_checker ''Paris.'' 50) < quality_threshold default_checker)
   \<and> strip [CHR 0x20, CHR 0x09] = []
   \<and> quality_score (check default_checker [CHR 0x20, CHR 0x09] 50) = 0
   \<and> map severity (issues (check default_checker [CHR 0x20, CHR 0x09] 50)) = [1]
   \<and> should_escalate (check default_checker [CHR 0x20, CHR 0x09] 50)"
proof -
  have s: "strip ''Paris.'' \<noteq> []"
    by (simp add: strip_eq_Nil isspace_def ord_def)
  have b: "strip [CHR 0x20, CHR 0x09] = []"
    by (simp add: strip_eq_Nil isspace_def ord_def)
  from check_score_formula[of "''Paris.''" default_checker 50]
       check_score_formula[of "[CHR 0x20, CHR 0x09]" default_checker 50] s b
  show ?thesis by simp
qed

text \<open>
  Claim C10. For every response text and complexity, \<open>check\<close> returns an
  \<open>escalation_reason\<close> exactly when \<open>should_escalate\<close> is true: also when it escalates
  without any issue, and never on an assessment that does not escalate.
\<close>

theorem check_reason_iff_escalate:
  "(escalation_reason (check self r c) \<noteq> None) = should_escalate (check self r c)"
  unfolding check_def Let_def by (simp split: if_splits) auto

theorem check_reason_iff_escalate_witness:
  "escalation_reason (check default_checker '' '' 50) = Some ''Empty response received''
   \<and> should_escalate (check default_checker '' '' 50)"
  using check_reason_iff_escalate[of default_checker "'' ''" 50]
  by (simp add: check_def strip_space)

subsection \<open>Scenario 4\<close>

text \<open>
  The detectors on the text of scenario 4. The severities are those of the exact
  arithmetic; the program's doubles differ from them in the last place (it computes
  \<open>0.2 * 3\<close> as 0.6000000000000001), which moves the penalty by less than a billionth and
  leaves the truncated score at 69.
\<close>

lemma scenario4_uncertainty:
  "detect_uncertainty scenario4_text =
     [\<lparr>issue_type = UNCERTAINTY, description = ''Found 3 uncertainty phrase(s)'',
       severity = 0.6, evidence = Some (''i'' @ [CHR 0x27] @ ''m not sure'')\<rparr>]"
  by code_simp

lemma scenario4_incomplete: "detect_incomplete scenario4_text = []"
  by code_simp

lemma scenario4_failed_reasoning: "detect_failed_reasoning scenario4_text = []"
  by code_simp

lemma scenario4_refusal: "detect_refusal scenario4_text = []"
  by code_simp

lemma scenario4_too_short:
  "detect_too_short scenario4_text 50 50 =
     [\<lparr>issue_type = TOO_SHORT,
       description = ''Response is only 55 characters (expected >150)'',
       severity = 19 / 30, evidence = Some scenario4_text\<rparr>]"
  by code_simp

lemma scenario4_repetition: "detect_repetition scenario4_text = []"
  by code_simp

lemma scenario4_not_blank: "scenario4_text \<noteq> [] \<and> strip scenario4_text \<noteq> []"
  by code_simp

lemma scenario4_check:
  "issues (check default_checker scenario4_text 50)
     = detect_uncertainty scenario4_text @ detect_too_short scenario4_text 50 50
   \<and> quality_score (check default_checker scenario4_text 50) = 69
   \<and> should_escalate (check default_checker scenario4_text 50) = False"
  using scenario4_not_blank
  by (simp add: check_def default_checker_def QualityChecker_init_def scenario4_uncertainty
        scenario4_incomplete scenario4_failed_reasoning scenario4_refusal scenario4_too_short
        scenario4_repetition calculate_score_def int_of_float_def Let_def)

text \<open>
  Claim C5, as stated: checking the text of scenario 4 at complexity 50 with the default
  threshold 60 finds an uncertainty issue and asks for escalation. The uncertainty issue is
  found, but the score is 69 and no escalation is asked for.
\<close>

theorem scenario4_escalation_counterexample:
  "\<not> should_escalate (check default_checker scenario4_text 50)"
  using scenario4_check by simp

text \<open>
  Claim C5, amended: checking the text of scenario 4 at complexity 50 with the default
  threshold 60 finds at least one uncertainty issue, gives the quality score 69, and does
  not ask for escalation.
\<close>

theorem scenario4_assessment:
  "UNCERTAINTY \<in> set (map issue_type (issues (check default_checker scenario4_text 50)))
   \<and> quality_score (check default_checker scenario4_text 50) = 69
   \<and> quality_threshold default_checker = 60
   \<and> should_escalate (check default_checker scenario4_text 50) = False"
  using scenario4_check
  by (simp add: scenario4_uncertainty default_checker_def QualityChecker_init_def)

section \<open>Prompt analyzer: proofs\<close>

text \<open>
  Claim C8. For a prompt that is empty or consists of white space only, \<open>analyze\<close> returns
  score 0, confidence 1, level low, no signals and the reasoning \<open>Empty prompt\<close>. The result
  is the same record whatever the weights are, and no detector takes part in it.
\<close>

theorem analyze_blank_prompt:
  assumes "\<forall>c \<in> set p. isspace c"
  shows "analyze w p =
           Inr \<lparr>complexity_score = 0, confidence = 1, level = LOW, detected_signals = [],
                 prompt_length = 0, reasoning = ''Empty prompt''\<rparr>"
proof -
  from assms have "strip p = []" by (simp add: strip_eq_Nil)
  then show ?thesis
    by (simp add: analyze_def mk_ComplexityAnalysis_def is_ComplexityAnalysis_def)
qed

theorem analyze_blank_prompt_witness:
  "isspace (CHR 0x20) \<and> isspace (CHR 0x09) \<and> isspace (CHR 0x0A)
   \<and> analyze SIGNAL_WEIGHTS [CHR 0x20, CHR 0x09, CHR 0x0A] =
       Inr \<lparr>complexity_score = 0, confidence = 1, level = LOW, detected_signals = [],
             prompt_length = 0, reasoning = ''Empty prompt''\<rparr>"
proof -
  have b: "\<forall>c \<in> set [CHR 0x20, CHR 0x09, CHR 0x0A]. isspace c"
    by (simp add: isspace_def ord_def)
  from analyze_blank_prompt[OF b, of SIGNAL_WEIGHTS] b show ?thesis by simp
qed

subsection \<open>Adding text can lower the score\<close>

lemma equation_is_math:
  "map signal_type (detect_math_expressions ''equation'') = [MATH_EXPRESSION]"
  by code_simp

lemma score_matrix:
  "map_sum (\<lambda>e. e) complexity_score (analyze SIGNAL_WEIGHTS ''matrix'') = Inr 17"
  by code_simp

lemma score_matrixequation:
  "map_sum (\<lambda>e. e) complexity_score (analyze SIGNAL_WEIGHTS (''matrix'' @ ''equation''))
     = Inr 1"
  by code_simp

text \<open>
  Claim C7, as stated: inserting a detector-positive substring into a prompt never lowers
  its score. The word \<open>equation\<close> is positive for the math detector, and so is the prompt
  \<open>matrix\<close> (score 17); appended to it, it gives \<open>matrixequation\<close>, in which neither word
  stands between word boundaries any more: no math signal, score 1.
\<close>

theorem append_math_word_counterexample:
  "map signal_type (detect_math_expressions ''equation'') = [MATH_EXPRESSION]
   \<and> map_sum (\<lambda>e. e) complexity_score (analyze SIGNAL_WEIGHTS ''matrix'') = Inr 17
   \<and> map_sum (\<lambda>e. e) complexity_score (analyze SIGNAL_WEIGHTS (''matrix'' @ ''equation''))
       = Inr 1"
  using equation_is_math score_matrix score_matrixequation by simp

subsection \<open>The score is monotone in the signals\<close>

lemma set_ins_desc: "set (ins_desc x ls) = insert x (set ls)"
  by (induction ls) auto

lemma desc_ins_desc: "desc ls \<Longrightarrow> desc (ins_desc x ls)"
  by (induction ls) (auto simp: set_ins_desc)

lemma dsum_Nil: "dsum c n [] = 0"
  by (cases n) simp_all

lemma mset_ins_desc: "mset (ins_desc x ls) = add_mset x (mset ls)"
  by (induction ls) auto

lemma desc_sort_desc: "desc (sort_desc ws)"
  unfolding sort_desc_def by (induction ws) (auto intro: desc_ins_desc)

lemma mset_sort_desc: "mset (sort_desc ws) = mset ws"
  unfolding sort_desc_def by (induction ws) (auto simp: mset_ins_desc)

lemma rev_sort: "rev (sort ws) = sort_desc ws"
proof -
  have "sorted (rev (sort_desc ws))"
    using desc_sort_desc[of ws] by (simp add: sorted_wrt_rev)
  moreover have "mset (rev (sort_desc ws)) = mset ws" by (simp add: mset_sort_desc)
  ultimately have "sort ws = rev (sort_desc ws)" by (intro properties_for_sort)
  then show ?thesis by simp
qed

lemma sort_desc_cong: "mset xs = mset ys \<Longrightarrow> sort_desc xs = sort_desc ys"
proof -
  assume "mset xs = mset ys"
  then have "sort xs = sort ys" by (intro properties_for_sort) simp_all
  then show ?thesis by (simp add: rev_sort[symmetric])
qed

lemma sort_desc_Cons: "sort_desc (x # xs) = ins_desc x (sort_desc xs)"
  by (simp add: sort_desc_def)

lemma enumerate_dsum:
  "(\<Sum>(i, w) \<leftarrow> enumerate k (take n ws). w * 0.7 ^ i) = dsum (0.7 ^ k) n ws"
proof (induction ws arbitrary: k n)
  case Nil
  then show ?case by (cases n) simp_all
next
  case (Cons w ws)
  show ?case
  proof (cases n)
    case 0
    then show ?thesis by simp
  next
    case (Suc m)
    with Cons.IH[of "Suc k" m] show ?thesis by (simp add: mult.commute)
  qed
qed

lemma aggregate_signals_dsum:
  "aggregate_signals sigs = min 1 (dsum 1 5 (sort_desc (map weight sigs)))"
proof (cases "sigs = []")
  case True
  then show ?thesis by (simp add: aggregate_signals_def sort_desc_def dsum_Nil)
next
  case False
  then show ?thesis
    using enumerate_dsum[of 0 5 "sort_desc (map weight sigs)"]
    by (simp add: aggregate_signals_def rev_sort Let_def)
qed

lemma dsum_prepend:
  "desc (l # ls) \<Longrightarrow> 0 \<le> c \<Longrightarrow> \<forall>x \<in> set (l # ls). 0 \<le> x \<Longrightarrow> dsum c n ls \<le> dsum c n (l # ls)"
proof (induction ls arbitrary: l c n)
  case Nil
  then show ?case by (cases n) (simp_all add: dsum_Nil)
next
  case (Cons m ms)
  show ?case
  proof (cases n)
    case 0
    then show ?thesis by simp
  next
    case (Suc k)
    have "dsum (c * 0.7) k ms \<le> dsum (c * 0.7) k (m # ms)"
      using Cons.prems by (intro Cons.IH) auto
    moreover have "m * c \<le> l * c" using Cons.prems by (intro mult_right_mono) auto
    ultimately show ?thesis using Suc by simp
  qed
qed

lemma ins_desc_head: "desc (l # ls) \<Longrightarrow> ins_desc l ls = l # ls"
  by (cases ls) auto

lemma dsum_ins_desc_raise:
  "desc ls \<Longrightarrow> 0 \<le> c \<Longrightarrow> x \<le> y \<Longrightarrow> dsum c n (ins_desc x ls) \<le> dsum c n (ins_desc y ls)"
proof (induction ls arbitrary: x y c n)
  case Nil
  then show ?case by (cases n) (simp_all add: mult_right_mono dsum_Nil)
next
  case (Cons l ls)
  show ?case
  proof (cases n)
    case 0
    then show ?thesis by simp
  next
    case (Suc k)
    have c7: "0 \<le> c * 0.7" using Cons.prems by simp
    have d: "desc ls" using Cons.prems by simp
    consider (a) "l \<le> x" | (b) "x < l" "y < l" | (c) "x < l" "l \<le> y" by linarith
    then show ?thesis
    proof cases
      case a
      with Cons.prems have "l \<le> y" by simp
      with a Suc Cons.prems show ?thesis by (simp add: mult_right_mono)
    next
      case b
      with Suc Cons.IH[OF d c7 Cons.prems(3), of k] show ?thesis by simp
    next
      case c
      have "dsum (c * 0.7) k (ins_desc x ls) \<le> dsum (c * 0.7) k (ins_desc l ls)"
        using c by (intro Cons.IH[OF d c7]) simp
      also have "ins_desc l ls = l # ls" using Cons.prems by (intro ins_desc_head)
      finally have "dsum (c * 0.7) k (ins_desc x ls) \<le> dsum (c * 0.7) k (l # ls)" .
      moreover have "l * c \<le> y * c" using c Cons.prems by (intro mult_right_mono) auto
      ultimately show ?thesis using c Suc by simp
    qed
  qed
qed

lemma dsum_ins_desc_add:
  "desc ls \<Longrightarrow> 0 \<le> c \<Longrightarrow> \<forall>v \<in> set ls. 0 \<le> v \<Longrightarrow> 0 \<le> x \<Longrightarrow> dsum c n ls \<le> dsum c n (ins_desc x ls)"
proof (induction ls arbitrary: c n)
  case Nil
  then show ?case by (cases n) (simp_all add: dsum_Nil)
next
  case (Cons l ls)
  show ?case
  proof (cases "l \<le> x")
    case True
    have "desc (x # l # ls)" using True Cons.prems by auto
    then have "dsum c n (l # ls) \<le> dsum c n (x # l # ls)"
      using Cons.prems by (intro dsum_prepend) auto
    with True show ?thesis by simp
  next
    case False
    show ?thesis
    proof (cases n)
      case 0
      then show ?thesis by simp
    next
      case (Suc k)
      have "dsum (c * 0.7) k ls \<le> dsum (c * 0.7) k (ins_desc x ls)"
        using Cons.prems by (intro Cons.IH) auto
      with False Suc show ?thesis by simp
    qed
  qed
qed

lemma upsert_cases:
  "map snd (upsert k s D) = map snd D @ [s]
   \<or> map snd (upsert k s D) = map snd D
   \<or> (\<exists>xs v ys. map snd D = xs @ v # ys \<and> weight v < weight s
                   \<and> map snd (upsert k s D) = xs @ s # ys)"
proof (induction D)
  case Nil
  then show ?case by simp
next
  case (Cons kv D)
  obtain k' v where kv: "kv = (k', v)" by (cases kv)
  show ?case
  proof (cases "k' = k")
    case True
    show ?thesis
    proof (cases "weight v < weight s")
      case w: True
      have "map snd (kv # D) = [] @ v # map snd D" by (simp add: kv)
      moreover have "map snd (upsert k s (kv # D)) = [] @ s # map snd D"
        using True w by (simp add: kv)
      ultimately show ?thesis using w by blast
    next
      case False
      with True show ?thesis by (simp add: kv)
    qed
  next
    case False
    then have u: "map snd (upsert k s (kv # D)) = v # map snd (upsert k s D)"
      by (simp add: kv)
    from Cons.IH consider
        (added) "map snd (upsert k s D) = map snd D @ [s]"
      | (kept) "map snd (upsert k s D) = map snd D"
      | (raised) xs v' ys where "map snd D = xs @ v' # ys" "weight v' < weight s"
          "map snd (upsert k s D) = xs @ s # ys"
      by blast
    then show ?thesis
    proof cases
      case added
      with u show ?thesis by (simp add: kv)
    next
      case kept
      with u show ?thesis by (simp add: kv)
    next
      case raised
      have "map snd (kv # D) = (v # xs) @ v' # ys" by (simp add: kv raised)
      moreover have "map snd (upsert k s (kv # D)) = (v # xs) @ s # ys"
        by (simp add: u raised)
      ultimately show ?thesis using raised(2) by blast
    qed
  qed
qed

lemma deduplicate_signals_snoc:
  "deduplicate_signals (sigs @ [s]) =
     map snd (upsert (signal_type s, lower (value s)) s
                (foldl (\<lambda>seen s. upsert (signal_type s, lower (value s)) s seen) [] sigs))"
  by (simp add: deduplicate_signals_def)

lemma set_upsert: "set (map snd (upsert k s D)) \<subseteq> insert s (set (map snd D))"
proof -
  from upsert_cases[of k s D] consider
      "map snd (upsert k s D) = map snd D @ [s]"
    | "map snd (upsert k s D) = map snd D"
    | xs v ys where "map snd D = xs @ v # ys" "map snd (upsert k s D) = xs @ s # ys"
    by blast
  then show ?thesis
  proof cases
    case 1
    then show ?thesis by auto
  next
    case 2
    then show ?thesis by auto
  next
    case 3
    show ?thesis unfolding 3 by auto
  qed
qed

lemma set_deduplicate_signals: "set (deduplicate_signals sigs) \<subseteq> set sigs"
proof (induction sigs rule: rev_induct)
  case Nil
  then show ?case by (simp add: deduplicate_signals_def)
next
  case (snoc s sigs)
  have "set (deduplicate_signals (sigs @ [s])) \<subseteq> insert s (set (deduplicate_signals sigs))"
    using set_upsert[of "(signal_type s, lower (value s))" s
            "foldl (\<lambda>seen s. upsert (signal_type s, lower (value s)) s seen) [] sigs"]
    by (simp add: deduplicate_signals_def)
  with snoc show ?case by auto
qed

lemma set_sort_desc: "set (sort_desc ws) = set ws"
  using mset_sort_desc[of ws] by (metis set_mset_mset)

lemma aggregate_signals_snoc:
  assumes "\<forall>x \<in> set sigs. 0 \<le> weight x" and "0 \<le> weight s"
  shows "aggregate_signals (deduplicate_signals sigs)
           \<le> aggregate_signals (deduplicate_signals (sigs @ [s]))"
proof -
  define D where "D = foldl (\<lambda>seen s. upsert (signal_type s, lower (value s)) s seen) [] sigs"
  have old: "deduplicate_signals sigs = map snd D"
    by (simp add: deduplicate_signals_def D_def)
  have new: "deduplicate_signals (sigs @ [s])
               = map snd (upsert (signal_type s, lower (value s)) s D)"
    by (simp add: deduplicate_signals_snoc D_def)
  have nn: "\<forall>x \<in> set (map snd D). 0 \<le> weight x"
    using set_deduplicate_signals[of sigs] assms(1) unfolding old by blast
  have "dsum 1 5 (sort_desc (map weight (map snd D)))
          \<le> dsum 1 5 (sort_desc (map weight
                (map snd (upsert (signal_type s, lower (value s)) s D))))"
    using upsert_cases[of "(signal_type s, lower (value s))" s D]
  proof (elim disjE exE conjE)
    assume a: "map snd (upsert (signal_type s, lower (value s)) s D) = map snd D @ [s]"
    have "sort_desc (map weight (map snd D @ [s]))
            = sort_desc (weight s # map weight (map snd D))"
      by (intro sort_desc_cong) simp
    also have "\<dots> = ins_desc (weight s) (sort_desc (map weight (map snd D)))"
      by (simp add: sort_desc_Cons)
    finally have e: "sort_desc (map weight (map snd D @ [s]))
            = ins_desc (weight s) (sort_desc (map weight (map snd D)))" .
    have "\<forall>v \<in> set (sort_desc (map weight (map snd D))). 0 \<le> v"
      using nn by (auto simp: set_sort_desc)
    then show ?thesis
      unfolding a e using assms(2) by (intro dsum_ins_desc_add desc_sort_desc) simp_all
  next
    assume "map snd (upsert (signal_type s, lower (value s)) s D) = map snd D"
    then show ?thesis by simp
  next
    fix xs v ys
    assume a: "map snd D = xs @ v # ys" "weight v < weight s"
      "map snd (upsert (signal_type s, lower (value s)) s D) = xs @ s # ys"
    have e1: "sort_desc (map weight (xs @ v # ys))
               = ins_desc (weight v) (sort_desc (map weight (xs @ ys)))"
    proof -
      have "sort_desc (map weight (xs @ v # ys)) = sort_desc (weight v # map weight (xs @ ys))"
        by (intro sort_desc_cong) simp
      then show ?thesis by (simp add: sort_desc_Cons)
    qed
    have e2: "sort_desc (map weight (xs @ s # ys))
               = ins_desc (weight s) (sort_desc (map weight (xs @ ys)))"
    proof -
      have "sort_desc (map weight (xs @ s # ys)) = sort_desc (weight s # map weight (xs @ ys))"
        by (intro sort_desc_cong) simp
      then show ?thesis by (simp add: sort_desc_Cons)
    qed
    show ?thesis
      unfolding a(1) a(3) e1 e2 using a(2)
      by (intro dsum_ins_desc_raise desc_sort_desc) simp_all
  qed
  then show ?thesis
    unfolding aggregate_signals_dsum old new by (simp add: min_le_iff_disj)
qed

lemma int_of_float_mono: "x \<le> y \<Longrightarrow> int_of_float x \<le> int_of_float y"
proof -
  assume xy: "x \<le> y"
  consider (a) "0 \<le> x" | (b) "x < 0" "0 \<le> y" | (c) "y < 0" using xy by linarith
  then show ?thesis
  proof cases
    case a
    with xy show ?thesis by (simp add: int_of_float_def floor_mono)
  next
    case b
    then have "\<lceil>x\<rceil> \<le> 0" "0 \<le> \<lfloor>y\<rfloor>" by (simp_all add: ceiling_le_zero)
    then have "\<lceil>x\<rceil> \<le> \<lfloor>y\<rfloor>" by linarith
    with b show ?thesis by (simp add: int_of_float_def)
  next
    case c
    with xy show ?thesis by (simp add: int_of_float_def ceiling_mono)
  qed
qed

lemma analyzer_score_mono:
  assumes "nonneg_weights w"
    and "aggregate_signals a \<le> aggregate_signals a'"
    and "aggregate_signals b \<le> aggregate_signals b'"
    and "aggregate_signals c \<le> aggregate_signals c'"
    and "aggregate_signals d \<le> aggregate_signals d'"
    and "weight l \<le> weight l'"
  shows "analyzer_calculate_score w a b c d l \<le> analyzer_calculate_score w a' b' c' d' l'"
proof -
  have "aggregate_signals a * keyword_weight w + aggregate_signals b * code_weight w
          + aggregate_signals c * math_weight w + aggregate_signals d * multipart_weight w
          + weight l * length_weight w
        \<le> aggregate_signals a' * keyword_weight w + aggregate_signals b' * code_weight w
          + aggregate_signals c' * math_weight w + aggregate_signals d' * multipart_weight w
          + weight l' * length_weight w"
    using assms unfolding nonneg_weights_def
    by (intro add_mono mult_right_mono) simp_all
  then show ?thesis
    unfolding analyzer_calculate_score_def Let_def
    by (intro int_of_float_mono) (simp add: min_le_iff_disj)
qed

text \<open>
  Claim C7, amended: the score is monotone in the signals, not in the text. When the
  category weights are not negative, a further signal reported at the end of the signals
  of a category (keywords, code, math or multi-part), before deduplication, never lowers
  the score that \<open>_calculate_score\<close> computes, and neither does a length signal of greater
  weight.
\<close>

theorem score_monotone_in_signals:
  assumes "nonneg_weights w"
    and "\<forall>x \<in> set sigs. is_DetectedSignal x" and "is_DetectedSignal s"
  shows "analyzer_calculate_score w (deduplicate_signals sigs) cs ms ps l
           \<le> analyzer_calculate_score w (deduplicate_signals (sigs @ [s])) cs ms ps l
       \<and> analyzer_calculate_score w ks (deduplicate_signals sigs) ms ps l
           \<le> analyzer_calculate_score w ks (deduplicate_signals (sigs @ [s])) ms ps l
       \<and> analyzer_calculate_score w ks cs (deduplicate_signals sigs) ps l
           \<le> analyzer_calculate_score w ks cs (deduplicate_signals (sigs @ [s])) ps l
       \<and> analyzer_calculate_score w ks cs ms (deduplicate_signals sigs) l
           \<le> analyzer_calculate_score w ks cs ms (deduplicate_signals (sigs @ [s])) l
       \<and> (weight l \<le> weight l' \<longrightarrow>
            analyzer_calculate_score w ks cs ms ps l \<le> analyzer_calculate_score w ks cs ms ps l')"
proof -
  have "aggregate_signals (deduplicate_signals sigs)
          \<le> aggregate_signals (deduplicate_signals (sigs @ [s]))"
    using assms(2,3) by (intro aggregate_signals_snoc) (auto simp: is_DetectedSignal_def)
  then show ?thesis
    using assms(1) by (auto intro!: analyzer_score_mono)
qed

theorem score_monotone_in_signals_witness:
  "nonneg_weights SIGNAL_WEIGHTS
   \<and> is_DetectedSignal signal_explain \<and> is_DetectedSignal signal_analyze
   \<and> analyzer_calculate_score SIGNAL_WEIGHTS (deduplicate_signals [signal_explain])
         [] [] [] signal_length_20
       \<le> analyzer_calculate_score SIGNAL_WEIGHTS
            (deduplicate_signals ([signal_explain] @ [signal_analyze])) [] [] [] signal_length_20"
proof -
  have a: "nonneg_weights SIGNAL_WEIGHTS"
    by (simp add: nonneg_weights_def SIGNAL_WEIGHTS_def)
  have b: "\<forall>x \<in> set [signal_explain]. is_DetectedSignal x"
    by (simp add: is_DetectedSignal_def signal_explain_def)
  have c: "is_DetectedSignal signal_analyze"
    by (simp add: is_DetectedSignal_def signal_analyze_def)
  from score_monotone_in_signals[OF a b c, of "[]" "[]" "[]" signal_length_20]
  show ?thesis using a b c by simp
qed

end
